theory Spec2Isabelle
  imports Main "HOL-Library.Word"
begin

unbundle bit_operations_syntax

section \<open>Go values\<close>

text \<open>
  Bytes are 8-bit words and a byte slice is the list of its \<open>len\<close> elements.
  Go's \<open>int\<close> is taken to be 64 bits wide (the amd64 and arm64 builds): an \<open>int\<close> is an
  \<open>int\<close> of HOL and every sum, product and conversion that can leave the range is
  wrapped by \<open>go_int\<close>.  A \<open>uint64\<close> is a \<open>nat\<close> below \<open>2 ^ 64\<close>, wrapped by
  \<open>go_uint64\<close>.
\<close>

type_synonym byte = "8 word"
type_synonym bytes = "byte list"

definition go_int :: "int \<Rightarrow> int" where
  "go_int x = signed_take_bit 63 x"

definition go_uint64 :: "int \<Rightarrow> nat" where
  "go_uint64 x = nat (take_bit 64 x)"

text \<open>
  Errors and failure messages, one constructor per \<open>fmt.Errorf\<close> or message site;
  a constructor with an \<open>error\<close> argument wraps or prints that error.  \<open>Panic\<close>
  is not an error value of Go: a function result \<open>Inl Panic\<close> says that the call ended in
  a run-time panic (slice bounds out of range, integer division by zero), which the
  callers here never recover.
\<close>

datatype error =
    Panic
  \<comment> \<open>package crypto\<close>
  | InvalidKeySize nat
  | InvalidIVSize nat
  | NotMultipleOfBlockSize
  | CreateCipherFailed
  | KeymapEmpty
  | OffsetExceedsDataSize int nat
  | NotEnoughDataForHeader int
  | ParseHeaderFailed error
  | EncryptedDataExceedsBounds
  | AESDecryptionFailed error
  | KeyOrIVNotFound nat
  | HexDecodeFailed
  \<comment> \<open>package structures\<close>
  | DataTooSmall nat
  | InvalidMagic bytes
  \<comment> \<open>package parser\<close>
  | CreateOutputDirectoryFailed
  | RegionOutOfBounds int nat nat
  | SaveRegion6Failed
  | RegionDecryptionFailed error
  | RealSizeExceedsBuffer nat nat
  | SaveFileFailed
  | ExtractRegionFailed string error
  \<comment> \<open>package extractor\<close>
  | DataOffsetExceedsRange
  | LZMA2Failed
  | NoValidBlocks
  | CreateDirectoryFailed
  | ExtractKeyFailed error
  | DecryptionFailedAtBlock int error
  | DecompressionFailedAtBlock int error
  | SegmentDecryptionFailed error
  | SegmentDecompressionFailed error
  | HashVerificationFailed
  | WriteFileFailed
  | SplitFileFailed error
  | SegmentProcessingFailed

text \<open>An error passed up through \<open>%w\<close>; a panic is not caught on the way.\<close>

definition wrap :: "(error \<Rightarrow> error) \<Rightarrow> error \<Rightarrow> error" where
  "wrap f e = (if e = Panic then Panic else f e)"

text \<open>
  The slice expression \<open>s[lo:hi]\<close> on a slice whose capacity is its length: Go panics
  unless \<open>0 \<le> lo \<le> hi \<le> cap(s)\<close>.  It is used where the source has checked
  \<open>hi \<le> len(s)\<close> before; the one expression that can reach past the length is in
  \<open>ExtractKeyFromKeyMap\<close> and is written out there.
\<close>

definition go_slice :: "'a list \<Rightarrow> int \<Rightarrow> int \<Rightarrow> error + 'a list" where
  "go_slice s lo hi =
     (if 0 \<le> lo \<and> lo \<le> hi \<and> hi \<le> int (length s)
      then Inr (take (nat (hi - lo)) (drop (nat lo) s))
      else Inl Panic)"

text \<open>The builtin \<open>copy(dst, src)\<close>, returning the new contents of \<open>dst\<close>.\<close>

definition go_copy :: "'a list \<Rightarrow> 'a list \<Rightarrow> 'a list" where
  "go_copy dst src = take (length dst) src @ drop (length src) dst"

section \<open>Package crypto: AES-CBC\<close>

text \<open>
  The loop of \<open>removePKCS7Padding\<close>:
  \<^verbatim>\<open>for i := len(data) - paddingLen; i < len(data); i++ { if data[i] != byte(paddingLen) { return data } }\<close>
  \<open>padding_loop data i p\<close> is true when the loop runs to its end from index \<open>i\<close>.
\<close>

function padding_loop :: "bytes \<Rightarrow> nat \<Rightarrow> byte \<Rightarrow> bool" where
  "padding_loop data i p =
     (if i < length data
      then (if data ! i \<noteq> p then False else padding_loop data (i + 1) p)
      else True)"
  by pat_completeness auto
termination
  by (relation "measure (\<lambda>(data, i, p). length data - i)") auto

declare padding_loop.simps [simp del]

definition removePKCS7Padding :: "bytes \<Rightarrow> bytes" where
  "removePKCS7Padding data =
     (if length data = 0 then data
      else
        let paddingLen = unat (data ! (length data - 1)) in
        if paddingLen = 0 \<or> paddingLen > 16 \<or> paddingLen > length data then data
        else if \<not> padding_loop data (length data - paddingLen) (of_nat paddingLen) then data
        else take (length data - paddingLen) data)"

text \<open>
  The cipher itself is Go's standard library (\<open>crypto/aes\<close>, \<open>crypto/cipher\<close>) and is a
  parameter of the model: \<open>cbc key iv src\<close> stands for what
  \<open>cipher.NewCBCDecrypter(aes.NewCipher(key), iv).CryptBlocks\<close> writes for the source
  \<open>src\<close>.  The destination is allocated by the caller with \<open>len(src)\<close> zero bytes, so
  the decrypted buffer has the length of the ciphertext whatever the library does.
\<close>

type_synonym cbc_decrypter = "bytes \<Rightarrow> bytes \<Rightarrow> bytes \<Rightarrow> bytes"

definition CryptBlocks :: "cbc_decrypter \<Rightarrow> bytes \<Rightarrow> bytes \<Rightarrow> bytes \<Rightarrow> bytes" where
  "CryptBlocks cbc key iv src = go_copy (replicate (length src) 0) (cbc key iv src)"

text \<open>\<open>aes.NewCipher\<close> fails exactly on a key that is not 16, 24 or 32 bytes long.\<close>

definition NewCipher :: "bytes \<Rightarrow> error + unit" where
  "NewCipher key =
     (if length key = 16 \<or> length key = 24 \<or> length key = 32 then Inr ()
      else Inl (InvalidKeySize (length key)))"

text \<open>A \<open>nil\<close> slice argument is \<open>None\<close>; an empty slice that is not nil is \<open>Some []\<close>.\<close>

definition DecryptAESCBC ::
  "cbc_decrypter \<Rightarrow> bytes \<Rightarrow> bytes option \<Rightarrow> bytes option \<Rightarrow> error + bytes" where
  "DecryptAESCBC cbc encryptedData key0 iv0 =
     (let key = (case key0 of None \<Rightarrow> replicate 32 0 | Some k \<Rightarrow> k);
          iv = (case iv0 of None \<Rightarrow> replicate 16 0 | Some v \<Rightarrow> v)
      in
      if length key \<noteq> 16 \<and> length key \<noteq> 24 \<and> length key \<noteq> 32
        then Inl (InvalidKeySize (length key))
      else if length iv \<noteq> 16 then Inl (InvalidIVSize (length iv))
      else if length encryptedData mod 16 \<noteq> 0 then Inl NotMultipleOfBlockSize
      else
        (case NewCipher key of
           Inl e \<Rightarrow> Inl CreateCipherFailed
         | Inr u \<Rightarrow> Inr (removePKCS7Padding (CryptBlocks cbc key iv encryptedData))))"

section \<open>Package crypto: the KeyMap\<close>

text \<open>
  \<open>keymapData\<close> is the one slice that the source slices past a bound it has not
  checked (\<open>keymapData[:remaining]\<close>), and Go allows an upper bound up to the capacity.
  The model therefore takes the key map as its \<open>len\<close> elements \<open>keymapData\<close> and the
  elements \<open>spare\<close> of its backing array between length and capacity.
\<close>

definition ExtractKeyFromKeyMap :: "bytes \<Rightarrow> bytes \<Rightarrow> int \<Rightarrow> error + bytes" where
  "ExtractKeyFromKeyMap keymapData spare keyIndex =
     (if length keymapData = 0 then Inl KeymapEmpty
      else
        let n = int (length keymapData);
            keyOffset0 = go_int (keyIndex * 32);
            \<comment> \<open>both operands of \<open>%\<close> are positive here, where Go's remainder is \<open>mod\<close>\<close>
            keyOffset = (if keyOffset0 \<ge> n then keyOffset0 mod n else keyOffset0)
        in
        if go_int (keyOffset + 32) > n then
          (case go_slice keymapData keyOffset n of
             Inl e \<Rightarrow> Inl e
           | Inr firstPart \<Rightarrow>
               let remaining = go_int (32 - int (length firstPart)) in
               (case go_slice (keymapData @ spare) 0 remaining of
                  Inl e \<Rightarrow> Inl e
                | Inr secondPart \<Rightarrow>
                    let key = go_copy (replicate 32 0) firstPart in
                    (case go_slice key (int (length firstPart)) 32 of
                       Inl e \<Rightarrow> Inl e
                     | Inr rest \<Rightarrow>
                         Inr (take (length firstPart) key @ go_copy rest secondPart))))
        else
          (case go_slice keymapData keyOffset (go_int (keyOffset + 32)) of
             Inl e \<Rightarrow> Inl e
           | Inr part \<Rightarrow> Inr (go_copy (replicate 32 0) part)))"

section \<open>Package structures: binary headers\<close>

text \<open>
  \<open>binary.Read\<close> with \<open>binary.LittleEndian\<close> fills the fields of a struct in their
  order from consecutive bytes.  Every parser checks the length first, so the read itself
  cannot fail and its error branch is not reachable.
\<close>

definition le_uint :: "bytes \<Rightarrow> nat" where
  "le_uint bs = foldr (\<lambda>b n. unat b + 256 * n) bs 0"

definition field :: "bytes \<Rightarrow> nat \<Rightarrow> nat \<Rightarrow> bytes" where
  "field data off n = take n (drop off data)"

definition magic_NTPI :: bytes where
  "magic_NTPI = [0x4E, 0x54, 0x50, 0x49]"

definition magic_NTENCODE :: bytes where
  "magic_NTENCODE = [0x4E, 0x54, 0x45, 0x4E, 0x43, 0x4F, 0x44, 0x45]"

record RegionHeader =
  RegionType :: nat
  RegionSize :: nat

record NTPIHeader =
  Magic :: bytes
  Padding :: nat
  VersionMajor :: nat
  VersionMinor :: nat
  VersionPatch :: nat
  FirstRegion :: RegionHeader

record RegionBlockHeader =
  ThisHeader :: RegionHeader
  NextHeader :: RegionHeader
  RealSize :: nat

record NTEncodeHeader =
  Magic :: bytes
  PrimaryType :: nat
  CompressSubtype :: nat
  EncryptSubtype :: nat
  Padding :: nat
  ProcessedSize :: nat
  OriginalSize :: nat
  Key :: bytes
  IV :: bytes
  KeySize :: nat
  IVSize :: nat

record NTDecompressHeader =
  Magic :: bytes
  PrimaryType :: nat
  DecompressSubtype :: nat
  Padding :: nat
  ProcessedSize :: nat
  OriginalSize :: nat
  Padding2 :: bytes

definition read_RegionHeader :: "bytes \<Rightarrow> nat \<Rightarrow> RegionHeader" where
  "read_RegionHeader data off =
     \<lparr>RegionType = le_uint (field data off 8), RegionSize = le_uint (field data (off + 8) 8)\<rparr>"

definition GetIV :: "NTEncodeHeader \<Rightarrow> bytes" where
  "GetIV h = take 16 (IV h)"

definition ParseNTPIHeader :: "bytes \<Rightarrow> error + NTPIHeader" where
  "ParseNTPIHeader data =
     (if length data < 48 then Inl (DataTooSmall (length data))
      else
        let header = \<lparr>NTPIHeader.Magic = field data 0 4,
                      NTPIHeader.Padding = le_uint (field data 4 4),
                      VersionMajor = le_uint (field data 8 8),
                      VersionMinor = le_uint (field data 16 8),
                      VersionPatch = le_uint (field data 24 8),
                      FirstRegion = read_RegionHeader data 32\<rparr>
        in if NTPIHeader.Magic header \<noteq> magic_NTPI then Inl (InvalidMagic (NTPIHeader.Magic header))
           else Inr header)"

definition ParseRegionBlockHeader :: "bytes \<Rightarrow> error + RegionBlockHeader" where
  "ParseRegionBlockHeader data =
     (if length data < 40 then Inl (DataTooSmall (length data))
      else Inr \<lparr>ThisHeader = read_RegionHeader data 0,
                NextHeader = read_RegionHeader data 16,
                RealSize = le_uint (field data 32 8)\<rparr>)"

definition ParseNTEncodeHeader :: "bytes \<Rightarrow> error + NTEncodeHeader" where
  "ParseNTEncodeHeader data =
     (if length data < 112 then Inl (DataTooSmall (length data))
      else
        let header = \<lparr>NTEncodeHeader.Magic = field data 0 8,
                      NTEncodeHeader.PrimaryType = le_uint (field data 8 4),
                      CompressSubtype = le_uint (field data 12 4),
                      EncryptSubtype = le_uint (field data 16 4),
                      NTEncodeHeader.Padding = le_uint (field data 20 4),
                      NTEncodeHeader.ProcessedSize = le_uint (field data 24 8),
                      NTEncodeHeader.OriginalSize = le_uint (field data 32 8),
                      Key = field data 40 32,
                      IV = field data 72 32,
                      KeySize = le_uint (field data 104 4),
                      IVSize = le_uint (field data 108 4)\<rparr>
        in if NTEncodeHeader.Magic header \<noteq> magic_NTENCODE
           then Inl (InvalidMagic (NTEncodeHeader.Magic header))
           else Inr header)"

definition ParseNTDecompressHeader :: "bytes \<Rightarrow> error + NTDecompressHeader" where
  "ParseNTDecompressHeader data =
     (if length data < 112 then Inl (DataTooSmall (length data))
      else
        let header = \<lparr>NTDecompressHeader.Magic = field data 0 8,
                      NTDecompressHeader.PrimaryType = le_uint (field data 8 4),
                      DecompressSubtype = le_uint (field data 12 4),
                      NTDecompressHeader.Padding = le_uint (field data 16 8),
                      NTDecompressHeader.ProcessedSize = le_uint (field data 24 8),
                      NTDecompressHeader.OriginalSize = le_uint (field data 32 8),
                      Padding2 = field data 40 72\<rparr>
        in if NTDecompressHeader.Magic header \<noteq> magic_NTENCODE
           then Inl (InvalidMagic (NTDecompressHeader.Magic header))
           else Inr header)"

text \<open>\<open>fmt.Sprintf("%d", n)\<close> for an unsigned \<open>n\<close>.\<close>

fun digits :: "nat \<Rightarrow> string" where
  "digits n =
     (if n < 10 then [''0123456789'' ! n]
      else digits (n div 10) @ [''0123456789'' ! (n mod 10)])"

declare digits.simps [simp del]

definition RegionName :: "nat \<Rightarrow> string" where
  "RegionName regionType =
     (case map_of [(1, ''Metadata''), (2, ''Patch''), (3, ''RawProgram''), (4, ''KeyMap''),
                   (5, ''FileIndex''), (6, ''Region6'')] regionType of
        Some name \<Rightarrow> name
      | None \<Rightarrow> ''Unknown'' @ digits regionType)"

section \<open>Package structures: the key registry\<close>

record AESKeyDict =
  Version :: string
  Keys :: "(string \<times> string) list"
  IVs :: "(string \<times> string) list"

definition AESDict_V1_3_0 :: AESKeyDict where
  "AESDict_V1_3_0 =
     \<lparr>Version = ''1.3.0'',
      Keys = [(''key_1'', ''08ed9260dec3807aac3ec00e765186cf4b9c677601ba844f8ec3e8c2fe1e11cb''),
              (''key_2'', ''7cec0ee7e63a703197afa8e09ce40f9b10a5fded6e5f04cb4ba7a435ed600288''),
              (''key_3'', ''76fa1a8d6663aae8b964470c384508f7f974d21af2535cd3549c7c51ed68b0e6''),
              (''key_4'', ''1c37c2a0b579512481e8529532909c7c1be72f9bb5e1a4610328a5e2b67c10f4''),
              (''key_5'', ''4ae22e3ae6ff0b65d06fa18df4f99ae59e6a90cb92ca03de65b64fc0fac958ce'')],
      IVs = [(''iv_1'', ''0797205f6b02c0232cd2798795ba588d''),
             (''iv_2'', ''01c5aaae7c4001592ea6a2310364a9a1''),
             (''iv_3'', ''de930fcc2c37009400e21dfa9f7d1363''),
             (''iv_4'', ''ab15d90ce88a83680a4074d5bb96d94c''),
             (''iv_5'', ''eaaa17604ad7dae5773639c217978da5'')]\<rparr>"

text \<open>
  The Go maps are association lists.  \<open>VersionKeyMap\<close> has one entry, so the unspecified
  iteration order of a Go map makes no difference to the prefix search below.
\<close>

definition VersionKeyMap :: "(string \<times> AESKeyDict) list" where
  "VersionKeyMap = [(''1.3.0'', AESDict_V1_3_0)]"

definition DefaultAESDict :: AESKeyDict where
  "DefaultAESDict = AESDict_V1_3_0"

text \<open>The result is a pointer: \<open>None\<close> is \<open>nil\<close>.\<close>

definition GetAESDictForVersion :: "nat \<Rightarrow> nat \<Rightarrow> nat \<Rightarrow> AESKeyDict option" where
  "GetAESDictForVersion major minor patch =
     (let version = digits major @ ''.'' @ digits minor @ ''.'' @ digits patch in
      case map_of VersionKeyMap version of
        Some dict \<Rightarrow> Some dict
      | None \<Rightarrow>
          (let partialVersion = digits major @ ''.'' @ digits minor in
           case find (\<lambda>(key, dict). length key \<ge> length partialVersion
                        \<and> take (length partialVersion) key = partialVersion) VersionKeyMap of
             Some (key, dict) \<Rightarrow> Some dict
           | None \<Rightarrow> Some DefaultAESDict))"

definition GetKeyForRegion :: "AESKeyDict \<Rightarrow> nat \<Rightarrow> string" where
  "GetKeyForRegion d regionType =
     (case map_of (Keys d) (''key_'' @ digits regionType) of Some key \<Rightarrow> key | None \<Rightarrow> [])"

definition GetIVForRegion :: "AESKeyDict \<Rightarrow> nat \<Rightarrow> string" where
  "GetIVForRegion d regionType =
     (case map_of (IVs d) (''iv_'' @ digits regionType) of Some iv \<Rightarrow> iv | None \<Rightarrow> [])"

section \<open>Package crypto: regions and blocks\<close>

text \<open>\<open>encoding/hex\<close>: \<open>DecodeString\<close> fails on an odd length and on a character that is
  not a hexadecimal digit; \<open>EncodeToString\<close> writes lower-case digits.\<close>

definition fromHexChar :: "char \<Rightarrow> nat option" where
  "fromHexChar c =
     (let n = (of_char c :: nat) in
      if 48 \<le> n \<and> n \<le> 57 then Some (n - 48)
      else if 97 \<le> n \<and> n \<le> 102 then Some (n - 97 + 10)
      else if 65 \<le> n \<and> n \<le> 70 then Some (n - 65 + 10)
      else None)"

fun hex_DecodeString :: "string \<Rightarrow> bytes option" where
  "hex_DecodeString [] = Some []"
| "hex_DecodeString [c] = None"
| "hex_DecodeString (a # b # rest) =
     (case fromHexChar a of
        None \<Rightarrow> None
      | Some x \<Rightarrow>
          (case fromHexChar b of
             None \<Rightarrow> None
           | Some y \<Rightarrow>
               (case hex_DecodeString rest of
                  None \<Rightarrow> None
                | Some bs \<Rightarrow> Some (of_nat (x * 16 + y) # bs))))"

definition hex_EncodeToString :: "bytes \<Rightarrow> string" where
  "hex_EncodeToString bs =
     concat (map (\<lambda>b. [''0123456789abcdef'' ! (unat b div 16),
                        ''0123456789abcdef'' ! (unat b mod 16)]) bs)"

definition GetKeyIVForRegion :: "nat \<Rightarrow> AESKeyDict \<Rightarrow> error + (bytes \<times> bytes)" where
  "GetKeyIVForRegion regionType keyDict =
     (let keyHex = GetKeyForRegion keyDict regionType;
          ivHex = GetIVForRegion keyDict regionType
      in
      if keyHex = [] \<or> ivHex = [] then Inl (KeyOrIVNotFound regionType)
      else
        (case hex_DecodeString keyHex of
           None \<Rightarrow> Inl HexDecodeFailed
         | Some key \<Rightarrow>
             (case hex_DecodeString ivHex of
                None \<Rightarrow> Inl HexDecodeFailed
              | Some iv \<Rightarrow> Inr (key, iv))))"

definition DecryptRegionData ::
  "cbc_decrypter \<Rightarrow> bytes \<Rightarrow> nat \<Rightarrow> AESKeyDict \<Rightarrow> error + bytes" where
  "DecryptRegionData cbc encryptedData regionType keyDict =
     (case GetKeyIVForRegion regionType keyDict of
        Inl e \<Rightarrow> Inl e
      | Inr (key, iv) \<Rightarrow> DecryptAESCBC cbc encryptedData (Some key) (Some iv))"

text \<open>The result is \<open>(nextOffset, decryptedData)\<close>.\<close>

definition DecryptNTEncodeBlock ::
  "cbc_decrypter \<Rightarrow> bytes \<Rightarrow> int \<Rightarrow> bytes \<Rightarrow> error + (int \<times> bytes)" where
  "DecryptNTEncodeBlock cbc region6Data offset key =
     (if offset \<ge> int (length region6Data)
        then Inl (OffsetExceedsDataSize offset (length region6Data))
      else
        let headerSize = 112 in
        if go_int (offset + headerSize) > int (length region6Data)
          then Inl (NotEnoughDataForHeader offset)
        else
          (case go_slice region6Data offset (go_int (offset + headerSize)) of
             Inl e \<Rightarrow> Inl e
           | Inr headerBytes \<Rightarrow>
               (case ParseNTEncodeHeader headerBytes of
                  Inl e \<Rightarrow> Inl (wrap ParseHeaderFailed e)
                | Inr header \<Rightarrow>
                    let dataOffset = go_int (offset + headerSize);
                        encryptedSize = go_int (int (NTEncodeHeader.OriginalSize header))
                    in
                    if go_int (dataOffset + encryptedSize) > int (length region6Data)
                      then Inl EncryptedDataExceedsBounds
                    else
                      (case go_slice region6Data dataOffset (go_int (dataOffset + encryptedSize)) of
                         Inl e \<Rightarrow> Inl e
                       | Inr encryptedData \<Rightarrow>
                           (case DecryptAESCBC cbc encryptedData (Some key) (Some (GetIV header)) of
                              Inl e \<Rightarrow> Inl (wrap AESDecryptionFailed e)
                            | Inr decryptedData \<Rightarrow>
                                Inr (go_int (dataOffset + encryptedSize), decryptedData))))))"

section \<open>Package extractor: decompression and hash check\<close>

text \<open>
  The LZMA2 decoder is a library in both builds (liblzma through cgo, or
  \<open>ulikunitz/xz\<close>) and is a parameter: \<open>lzma2 data\<close> is \<open>None\<close> when the decoder
  reports an error.  The checks before the decoder is called are the same in both builds.
\<close>

type_synonym lzma2_decoder = "bytes \<Rightarrow> bytes option"

definition decompressLZMA2 :: "lzma2_decoder \<Rightarrow> bytes \<Rightarrow> error + bytes" where
  "decompressLZMA2 lzma2 decryptedData =
     (if length decryptedData < 112 then Inl (DataTooSmall (length decryptedData))
      else if take 8 decryptedData \<noteq> magic_NTENCODE then Inl (InvalidMagic (take 8 decryptedData))
      else
        (case ParseNTDecompressHeader (take 112 decryptedData) of
           Inl e \<Rightarrow> Inl (wrap ParseHeaderFailed e)
         | Inr header \<Rightarrow>
             let dataOffset = 112 in
             if dataOffset \<ge> length decryptedData then Inl DataOffsetExceedsRange
             else
               (case lzma2 (drop dataOffset decryptedData) of
                  None \<Rightarrow> Inl LZMA2Failed
                | Some decompressed \<Rightarrow> Inr decompressed)))"

text \<open>
  \<open>strings.EqualFold\<close> compares under Unicode simple case folding.  Its first argument
  here is always a string of the characters \<open>0-9a-f\<close>, whose only other fold partners
  are \<open>A-F\<close>, so folding the ASCII letters is exact.
\<close>

definition fold_char :: "char \<Rightarrow> char" where
  "fold_char c =
     (let n = (of_char c :: nat) in if 65 \<le> n \<and> n \<le> 90 then char_of (n + 32) else c)"

definition EqualFold :: "string \<Rightarrow> string \<Rightarrow> bool" where
  "EqualFold s t = (map fold_char s = map fold_char t)"

text \<open>\<open>sha256\<close> stands for \<open>sha256.Sum256\<close> of the standard library.\<close>

definition verifyHash :: "(bytes \<Rightarrow> bytes) \<Rightarrow> bytes \<Rightarrow> string \<Rightarrow> bool" where
  "verifyHash sha256 data expectedHash =
     (let hash = sha256 data; actualHash = hex_EncodeToString hash
      in EqualFold actualHash expectedHash)"

section \<open>The platform\<close>

text \<open>
  What the program takes from libraries and from the operating system: the AES-CBC
  decrypter, the LZMA2 decoder, SHA-256, \<open>filepath.Join\<close> and \<open>filepath.Dir\<close>, and
  whether \<open>os.MkdirAll\<close> or \<open>os.WriteFile\<close> fails on a path in a given state.
  The state of the file system is the set of directories made and the contents of the
  files written.
\<close>

record filesystem =
  dirs :: "string set"
  files :: "string \<rightharpoonup> bytes"

record platform =
  aes_cbc :: cbc_decrypter
  lzma2_decode :: lzma2_decoder
  sha256_sum :: "bytes \<Rightarrow> bytes"
  path_Join :: "string \<Rightarrow> string \<Rightarrow> string"
  path_Dir :: "string \<Rightarrow> string"
  mkdir_fails :: "filesystem \<Rightarrow> string \<Rightarrow> bool"
  write_fails :: "filesystem \<Rightarrow> string \<Rightarrow> bool"

definition MkdirAll :: "platform \<Rightarrow> string \<Rightarrow> filesystem \<Rightarrow> filesystem option" where
  "MkdirAll P path fs =
     (if mkdir_fails P fs path then None else Some (fs\<lparr>dirs := insert path (dirs fs)\<rparr>))"

definition WriteFile :: "platform \<Rightarrow> string \<Rightarrow> bytes \<Rightarrow> filesystem \<Rightarrow> filesystem option" where
  "WriteFile P path data fs =
     (if write_fails P fs path then None else Some (fs\<lparr>files := (files fs)(path \<mapsto> data)\<rparr>))"

section \<open>Package parser: stage 1\<close>

text \<open>
  \<open>extractRegion\<close> returns \<open>(nextOffset, nextRegion)\<close>, where the pointer
  \<open>nextRegion\<close> is \<open>None\<close> for \<open>nil\<close>, together with the new file system.
\<close>

definition extractRegion ::
  "platform \<Rightarrow> bytes \<Rightarrow> RegionHeader \<Rightarrow> int \<Rightarrow> string \<Rightarrow> AESKeyDict \<Rightarrow> filesystem
     \<Rightarrow> error + (int \<times> RegionHeader option \<times> filesystem)" where
  "extractRegion P fileData regionHeader offset outputDir keyDict fs =
     (let regionName = RegionName (RegionType regionHeader);
          regionEnd = go_int (offset + go_int (int (RegionSize regionHeader)))
      in
      if regionEnd > int (length fileData)
        then Inl (RegionOutOfBounds offset (RegionSize regionHeader) (length fileData))
      else
        (case go_slice fileData offset regionEnd of
           Inl e \<Rightarrow> Inl e
         | Inr regionData \<Rightarrow>
             if RegionType regionHeader = 6 then
               (let outputFile = path_Join P outputDir ''region6block.bin'' in
                case WriteFile P outputFile regionData fs of
                  None \<Rightarrow> Inl SaveRegion6Failed
                | Some fs' \<Rightarrow> Inr (- 1, None, fs'))
             else
               (case DecryptRegionData (aes_cbc P) regionData (RegionType regionHeader) keyDict of
                  Inl e \<Rightarrow> Inl (wrap RegionDecryptionFailed e)
                | Inr decryptedData \<Rightarrow>
                    if length decryptedData < 40 then Inl (DataTooSmall (length decryptedData))
                    else
                      (case ParseRegionBlockHeader decryptedData of
                         Inl e \<Rightarrow> Inl (wrap ParseHeaderFailed e)
                       | Inr blockHeader \<Rightarrow>
                           let dataOffset = 40;
                               dataEnd = go_int (dataOffset + go_int (int (RealSize blockHeader)))
                           in
                           if dataEnd > int (length decryptedData)
                             then Inl (RealSizeExceedsBuffer (RealSize blockHeader)
                                         (length decryptedData))
                           else
                             (case go_slice decryptedData dataOffset dataEnd of
                                Inl e \<Rightarrow> Inl e
                              | Inr actualData \<Rightarrow>
                                  let outputFile =
                                        (if RegionType regionHeader = 4
                                         then path_Join P outputDir (regionName @ ''.bin'')
                                         else path_Join P outputDir (regionName @ ''.xml''))
                                  in
                                  (case WriteFile P outputFile actualData fs of
                                     None \<Rightarrow> Inl SaveFileFailed
                                   | Some fs' \<Rightarrow>
                                       if RegionSize (NextHeader blockHeader) > 0 then
                                         Inr (go_int (offset + go_int (int (RegionSize regionHeader))),
                                              Some (NextHeader blockHeader), fs')
                                       else Inr (- 1, None, fs')))))))"

text \<open>
  The \<open>for\<close> loop of \<open>ParseNTPIFile\<close>, from the state \<open>(currentOffset, currentRegion,
  regionCount)\<close>; it returns the number of regions extracted and the file system.
\<close>

function (domintros) ParseNTPIFile_loop ::
  "platform \<Rightarrow> bytes \<Rightarrow> string \<Rightarrow> AESKeyDict \<Rightarrow> int \<Rightarrow> RegionHeader \<Rightarrow> nat \<Rightarrow> filesystem
     \<Rightarrow> error + (nat \<times> filesystem)" where
  "ParseNTPIFile_loop P fileData outputDir keyDict currentOffset currentRegion regionCount0 fs =
     (let regionCount = regionCount0 + 1;
          regionName = RegionName (RegionType currentRegion)
      in
      case extractRegion P fileData currentRegion currentOffset outputDir keyDict fs of
        Inl e \<Rightarrow> Inl (wrap (ExtractRegionFailed regionName) e)
      | Inr (nextOffset, nextRegion, fs') \<Rightarrow>
          (case nextRegion of
             None \<Rightarrow> Inr (regionCount, fs')
           | Some region \<Rightarrow>
               if nextOffset = - 1 then Inr (regionCount, fs')
               else ParseNTPIFile_loop P fileData outputDir keyDict nextOffset region regionCount fs'))"
  by pat_completeness auto

text \<open>
  Lines 62 to 66 of \<open>ParseNTPIFile\<close>: the key dictionary in use, and whether the warning
  "Unsupported firmware version, using default keys" is printed.
\<close>

definition ParseNTPIFile_keyDict :: "NTPIHeader \<Rightarrow> bool \<times> AESKeyDict" where
  "ParseNTPIFile_keyDict header =
     (case GetAESDictForVersion (VersionMajor header) (VersionMinor header) (VersionPatch header) of
        None \<Rightarrow> (True, DefaultAESDict)
      | Some keyDict \<Rightarrow> (False, keyDict))"

text \<open>\<open>fileData\<close> is what \<open>os.ReadFile(filePath)\<close> has returned.\<close>

definition ParseNTPIFile ::
  "platform \<Rightarrow> bytes \<Rightarrow> string \<Rightarrow> filesystem \<Rightarrow> error + (nat \<times> filesystem)" where
  "ParseNTPIFile P fileData outputDir fs =
     (case ParseNTPIHeader fileData of
        Inl e \<Rightarrow> Inl (wrap ParseHeaderFailed e)
      | Inr header \<Rightarrow>
          let keyDict = snd (ParseNTPIFile_keyDict header) in
          (case MkdirAll P outputDir fs of
             None \<Rightarrow> Inl CreateOutputDirectoryFailed
           | Some fs1 \<Rightarrow>
               ParseNTPIFile_loop P fileData outputDir keyDict 48 (FirstRegion header) 0 fs1))"

section \<open>Package extractor: stage 2\<close>

record FileInfo =
  Name :: string
  FileSha256Hash :: string
  PartitionSha256Hash :: string
  KeyIndex :: int
  IsSparse :: string
  IsEncrypted :: string
  IsCompressed :: string
  PartitionLength :: nat
  OriginalLength :: nat
  Offset :: nat
  Length :: nat

text \<open>
  \<open>KeyMapSpare\<close> is not a field of the Go struct: it holds the elements of the backing
  array of \<open>KeyMapData\<close> between its length and its capacity (see
  \<open>ExtractKeyFromKeyMap\<close>).
\<close>

record FileTask =
  FileInfo :: FileInfo
  Region6Data :: bytes
  KeyMapData :: bytes
  KeyMapSpare :: bytes
  OutputDir :: string
  UseSegmented :: bool
  NumSegments :: int
  ShowProgress :: bool

datatype message = OK | OK_segmented | Failed error

record FileResult =
  FileName :: string
  Success :: bool
  Message :: message

record Segment =
  StartOffset :: int
  EndOffset :: int
  StartBlockIndex :: int
  NumBlocks :: int

record BlockBoundary =
  Offset :: int
  BlockIndex :: int
  AccumulatedSize :: nat

definition calculateOptimalSegments :: "nat \<Rightarrow> int" where
  "calculateOptimalSegments fileSize =
     (let MB = 1024 * 1024; GB = 1024 * MB in
      if fileSize < 500 * MB then 1
      else if fileSize < 1 * GB then 4
      else if fileSize < 2 * GB then 8
      else if fileSize < 4 * GB then 12
      else 16)"

text \<open>The task that \<open>ExtractFiles\<close> builds for one entry of the file index.\<close>

definition ExtractFiles_task :: "FileInfo \<Rightarrow> bytes \<Rightarrow> bytes \<Rightarrow> bytes \<Rightarrow> string \<Rightarrow> FileTask" where
  "ExtractFiles_task file region6Data keyMapData keyMapSpare outputDir =
     (let numSegments = calculateOptimalSegments (PartitionLength file) in
      \<lparr>FileInfo = file, Region6Data = region6Data, KeyMapData = keyMapData,
       KeyMapSpare = keyMapSpare, OutputDir = outputDir,
       UseSegmented = (numSegments > 1), NumSegments = numSegments, ShowProgress = True\<rparr>)"

text \<open>
  The block loop of \<open>processFileSequential\<close> from the state \<open>(currentOffset, blockIndex,
  fileData)\<close>.  The progress bar takes no part in the result and is left out.
\<close>

function (domintros) processFileSequential_loop ::
  "platform \<Rightarrow> FileTask \<Rightarrow> int \<Rightarrow> int \<Rightarrow> int \<Rightarrow> bytes \<Rightarrow> error + bytes" where
  "processFileSequential_loop P task endOffset currentOffset blockIndex fileData =
     (if currentOffset < endOffset then
        (let keyIndex = go_int (KeyIndex (FileInfo task) + blockIndex) in
         case ExtractKeyFromKeyMap (KeyMapData task) (KeyMapSpare task) keyIndex of
           Inl e \<Rightarrow> Inl (wrap ExtractKeyFailed e)
         | Inr key \<Rightarrow>
             (case DecryptNTEncodeBlock (aes_cbc P) (Region6Data task) currentOffset key of
                Inl e \<Rightarrow> Inl (wrap (DecryptionFailedAtBlock blockIndex) e)
              | Inr (nextOffset, decryptedData) \<Rightarrow>
                  (case decompressLZMA2 (lzma2_decode P) decryptedData of
                     Inl e \<Rightarrow> Inl (wrap (DecompressionFailedAtBlock blockIndex) e)
                   | Inr decompressedData \<Rightarrow>
                       processFileSequential_loop P task endOffset nextOffset
                         (go_int (blockIndex + 1)) (fileData @ decompressedData))))
      else Inr fileData)"
  by pat_completeness auto

definition failure :: "FileInfo \<Rightarrow> error \<Rightarrow> FileResult" where
  "failure file e = \<lparr>FileName = Name file, Success = False, Message = Failed e\<rparr>"

text \<open>
  The result of a file task is its \<open>FileResult\<close> and the file system it leaves;
  \<open>Inl Panic\<close> when the task ends in a panic, which takes the process down.
\<close>

definition processFileSequential ::
  "platform \<Rightarrow> FileTask \<Rightarrow> filesystem \<Rightarrow> error + (FileResult \<times> filesystem)" where
  "processFileSequential P task fs =
     (let file = FileInfo task;
          outputPath = path_Join P (OutputDir task) (Name file)
      in
      case MkdirAll P (path_Dir P outputPath) fs of
        None \<Rightarrow> Inr (failure file CreateDirectoryFailed, fs)
      | Some fs1 \<Rightarrow>
          let currentOffset = go_int (int (FileInfo.Offset file));
              endOffset = go_int (currentOffset + go_int (int (Length file)))
          in
          (case processFileSequential_loop P task endOffset currentOffset 0 [] of
             Inl e \<Rightarrow> if e = Panic then Inl Panic else Inr (failure file e, fs1)
           | Inr finalData \<Rightarrow>
               if \<not> verifyHash (sha256_sum P) finalData (FileSha256Hash file)
                 then Inr (failure file HashVerificationFailed, fs1)
               else
                 (case WriteFile P outputPath finalData fs1 of
                    None \<Rightarrow> Inr (failure file WriteFileFailed, fs1)
                  | Some fs2 \<Rightarrow>
                      Inr (\<lparr>FileName = Name file, Success = True, Message = OK\<rparr>, fs2))))"

text \<open>
  Step 1 of \<open>splitFileIntoSegments\<close>, the scan of the block boundaries, from the state
  \<open>(currentOffset, blockIndex, accumulatedSize, boundaries)\<close>.  Nothing in the source
  bounds this loop (a block size of zero repeats the same header for ever), so it is a
  partial function: \<open>None\<close> says that the scan does not return.  Its result is the list
  of boundaries and the accumulated size.
\<close>

partial_function (option) splitFileIntoSegments_scan ::
  "bytes \<Rightarrow> int \<Rightarrow> int \<Rightarrow> int \<Rightarrow> nat \<Rightarrow> BlockBoundary list
     \<Rightarrow> (error + (BlockBoundary list \<times> nat)) option" where
  "splitFileIntoSegments_scan region6Data offsetEnd currentOffset blockIndex accumulatedSize boundaries =
     (if currentOffset < offsetEnd then
        (if go_int (currentOffset + 112) > int (length region6Data)
           then Some (Inr (boundaries, accumulatedSize))
         else
           (case go_slice region6Data currentOffset (go_int (currentOffset + 112)) of
              Inl e \<Rightarrow> Some (Inl e)
            | Inr headerBytes \<Rightarrow>
                (case ParseNTEncodeHeader headerBytes of
                   Inl e \<Rightarrow> Some (Inr (boundaries, accumulatedSize))
                 | Inr header \<Rightarrow>
                     splitFileIntoSegments_scan region6Data offsetEnd
                       (go_int (currentOffset
                          + go_int (112 + go_int (int (NTEncodeHeader.OriginalSize header)))))
                       (go_int (blockIndex + 1))
                       (go_uint64 (int accumulatedSize
                          + int (NTEncodeHeader.ProcessedSize header)))
                       (boundaries @ [\<lparr>Offset = currentOffset, BlockIndex = blockIndex,
                                        AccumulatedSize = accumulatedSize\<rparr>]))))
      else Some (Inr (boundaries, accumulatedSize)))"

declare splitFileIntoSegments_scan.simps [code]

text \<open>
  Step 2, the \<open>for i := 0; i < totalBlocks; i++\<close> loop, from the state \<open>(i,
  segmentStartIdx, currentSegmentSize, segments)\<close>.  The two indices stay between 0 and
  \<open>len(boundaries)\<close> and are natural numbers; \<open>boundaries[segmentStartIdx]\<close> panics
  when the index is out of range.
\<close>

function splitFileIntoSegments_partition ::
  "BlockBoundary list \<Rightarrow> int \<Rightarrow> int \<Rightarrow> nat \<Rightarrow> nat \<Rightarrow> nat \<Rightarrow> nat \<Rightarrow> Segment list
     \<Rightarrow> error + Segment list" where
  "splitFileIntoSegments_partition boundaries offsetEnd numSegments targetSizePerSegment
       i segmentStartIdx currentSegmentSize0 segments =
     (let totalBlocks = length boundaries in
      if i < totalBlocks then
        (let currentSegmentSize =
               (if segmentStartIdx < length boundaries
                then go_uint64 (int (AccumulatedSize (boundaries ! i))
                                - int (AccumulatedSize (boundaries ! segmentStartIdx)))
                else currentSegmentSize0);
             shouldEndSegment =
               (int (length segments) < go_int (numSegments - 1)
                \<and> currentSegmentSize \<ge> targetSizePerSegment)
         in
         if shouldEndSegment \<or> i = totalBlocks - 1 then
           (if segmentStartIdx < length boundaries then
              (let startOffset = Offset (boundaries ! segmentStartIdx);
                   startBlockIdx = BlockIndex (boundaries ! segmentStartIdx);
                   endOffset =
                     (if i = totalBlocks - 1 then offsetEnd
                      else if i + 1 < totalBlocks then Offset (boundaries ! (i + 1))
                      else offsetEnd);
                   numBlocks =
                     (if i = totalBlocks - 1 then int totalBlocks - int segmentStartIdx
                      else int i - int segmentStartIdx + 1)
               in
               splitFileIntoSegments_partition boundaries offsetEnd numSegments
                 targetSizePerSegment (i + 1) (i + 1) 0
                 (segments @ [\<lparr>StartOffset = startOffset, EndOffset = endOffset,
                                StartBlockIndex = startBlockIdx, NumBlocks = numBlocks\<rparr>]))
            else Inl Panic)
         else
           splitFileIntoSegments_partition boundaries offsetEnd numSegments
             targetSizePerSegment (i + 1) segmentStartIdx currentSegmentSize segments)
      else Inr segments)"
  by pat_completeness auto
termination
  by (relation "measure (\<lambda>(boundaries, offsetEnd, numSegments, target, i, rest).
                            length boundaries - i)") auto

declare splitFileIntoSegments_partition.simps [simp del]

text \<open>
  \<open>uint64(numSegments)\<close> reinterprets the \<open>int\<close>; the division panics on zero.
\<close>

definition splitFileIntoSegments :: "FileTask \<Rightarrow> int \<Rightarrow> (error + Segment list) option" where
  "splitFileIntoSegments task numSegments =
     (let file = FileInfo task;
          offsetStart = go_int (int (FileInfo.Offset file));
          offsetEnd = go_int (offsetStart + go_int (int (Length file)))
      in
      case splitFileIntoSegments_scan (Region6Data task) offsetEnd offsetStart 0 0 [] of
        None \<Rightarrow> None
      | Some (Inl e) \<Rightarrow> Some (Inl e)
      | Some (Inr (boundaries, accumulatedSize)) \<Rightarrow>
          if length boundaries = 0 then Some (Inl NoValidBlocks)
          else if go_uint64 numSegments = 0 then Some (Inl Panic)
          else
            Some (splitFileIntoSegments_partition boundaries offsetEnd numSegments
                    (accumulatedSize div go_uint64 numSegments) 0 0 0 []))"

text \<open>
  The block loop of \<open>processSegment\<close> from the state \<open>(currentOffset, blockCount,
  segmentData)\<close>.
\<close>

function (domintros) processSegment_loop ::
  "platform \<Rightarrow> FileTask \<Rightarrow> Segment \<Rightarrow> int \<Rightarrow> int \<Rightarrow> bytes \<Rightarrow> error + bytes" where
  "processSegment_loop P task segment currentOffset blockCount segmentData =
     (if currentOffset < EndOffset segment \<and> blockCount < NumBlocks segment then
        (let keyIndex =
               go_int (go_int (KeyIndex (FileInfo task) + StartBlockIndex segment) + blockCount)
         in
         case ExtractKeyFromKeyMap (KeyMapData task) (KeyMapSpare task) keyIndex of
           Inl e \<Rightarrow> Inl (wrap ExtractKeyFailed e)
         | Inr key \<Rightarrow>
             (case DecryptNTEncodeBlock (aes_cbc P) (Region6Data task) currentOffset key of
                Inl e \<Rightarrow> Inl (wrap SegmentDecryptionFailed e)
              | Inr (nextOffset, decryptedData) \<Rightarrow>
                  (case decompressLZMA2 (lzma2_decode P) decryptedData of
                     Inl e \<Rightarrow> Inl (wrap SegmentDecompressionFailed e)
                   | Inr decompressedData \<Rightarrow>
                       processSegment_loop P task segment nextOffset
                         (go_int (blockCount + 1)) (segmentData @ decompressedData))))
      else Inr segmentData)"
  by pat_completeness auto

definition processSegment :: "platform \<Rightarrow> FileTask \<Rightarrow> Segment \<Rightarrow> error + bytes" where
  "processSegment P task segment =
     processSegment_loop P task segment (StartOffset segment) 0 []"

text \<open>
  The goroutines of \<open>processLargeFileSegmented\<close>, one per segment, and the concatenation
  of their buffers in the order of the segments.  The goroutines share no state but the
  slot each one writes, so their results are those of the calls taken one by one.  A panic
  in any of them ends the process; otherwise, if some of them sent an error, the task
  fails (which of the errors is received first is not determined, and the message
  constructor does not carry it).  The slot of a failed segment stays \<open>nil\<close>.
\<close>

definition segment_slot :: "error + bytes \<Rightarrow> bytes" where
  "segment_slot r = (case r of Inl e \<Rightarrow> [] | Inr data \<Rightarrow> data)"

definition processSegments :: "platform \<Rightarrow> FileTask \<Rightarrow> Segment list \<Rightarrow> error + bytes" where
  "processSegments P task segments =
     (let results = map (processSegment P task) segments in
      if list_ex (\<lambda>r. r = Inl Panic) results then Inl Panic
      else if list_ex isl results then Inl SegmentProcessingFailed
      else Inr (concat (map segment_slot results)))"

text \<open>\<open>None\<close> when the boundary scan does not return.\<close>

definition processLargeFileSegmented ::
  "platform \<Rightarrow> FileTask \<Rightarrow> filesystem \<Rightarrow> (error + (FileResult \<times> filesystem)) option" where
  "processLargeFileSegmented P task fs =
     (let file = FileInfo task;
          outputPath = path_Join P (OutputDir task) (Name file)
      in
      case MkdirAll P (path_Dir P outputPath) fs of
        None \<Rightarrow> Some (Inr (failure file CreateDirectoryFailed, fs))
      | Some fs1 \<Rightarrow>
          (case splitFileIntoSegments task (NumSegments task) of
             None \<Rightarrow> None
           | Some (Inl e) \<Rightarrow>
               if e = Panic then Some (Inl Panic)
               else Some (Inr (failure file (SplitFileFailed e), fs1))
           | Some (Inr segments) \<Rightarrow>
               (case processSegments P task segments of
                  Inl e \<Rightarrow> if e = Panic then Some (Inl Panic) else Some (Inr (failure file e, fs1))
                | Inr finalData \<Rightarrow>
                    if \<not> verifyHash (sha256_sum P) finalData (FileSha256Hash file)
                      then Some (Inr (failure file HashVerificationFailed, fs1))
                    else
                      (case WriteFile P outputPath finalData fs1 of
                         None \<Rightarrow> Some (Inr (failure file WriteFileFailed, fs1))
                       | Some fs2 \<Rightarrow>
                           Some (Inr (\<lparr>FileName = Name file, Success = True,
                                       Message = OK_segmented\<rparr>, fs2))))))"

text \<open>The body of the \<open>worker\<close> loop for one task (the duration is left out).\<close>

definition worker ::
  "platform \<Rightarrow> FileTask \<Rightarrow> filesystem \<Rightarrow> (error + (FileResult \<times> filesystem)) option" where
  "worker P task fs =
     (if UseSegmented task then processLargeFileSegmented P task fs
      else Some (processFileSequential P task fs))"

section \<open>An instance of the platform\<close>

text \<open>
  The theorems below hold for every platform.  Their instances at concrete inputs are
  evaluated on this one: SHA-256 as specified in FIPS 180-4, the lexical path functions of
  \<open>path/filepath\<close> for a Unix target, an LZMA2 decoder for streams of stored chunks,
  the null cipher, and an operating system whose calls succeed.
\<close>

text \<open>The round constants and the initial hash value of SHA-256, in decimal.\<close>

definition sha256_K :: "32 word list" where
  "sha256_K = [
   1116352408, 1899447441, 3049323471, 3921009573, 961987163, 1508970993,
   2453635748, 2870763221, 3624381080, 310598401, 607225278, 1426881987,
   1925078388, 2162078206, 2614888103, 3248222580, 3835390401, 4022224774,
   264347078, 604807628, 770255983, 1249150122, 1555081692, 1996064986,
   2554220882, 2821834349, 2952996808, 3210313671, 3336571891, 3584528711,
   113926993, 338241895, 666307205, 773529912, 1294757372, 1396182291,
   1695183700, 1986661051, 2177026350, 2456956037, 2730485921, 2820302411,
   3259730800, 3345764771, 3516065817, 3600352804, 4094571909, 275423344,
   430227734, 506948616, 659060556, 883997877, 958139571, 1322822218,
   1537002063, 1747873779, 1955562222, 2024104815, 2227730452, 2361852424,
   2428436474, 2756734187, 3204031479, 3329325298]"

definition sha256_H0 :: "32 word list" where
  "sha256_H0 = [
   1779033703, 3144134277, 1013904242, 2773480762, 1359893119, 2600822924,
   528734635, 1541459225]"

definition rotr :: "nat \<Rightarrow> 32 word \<Rightarrow> 32 word" where
  "rotr n w = (drop_bit n w) OR (push_bit (32 - n) w)"

definition be_word :: "bytes \<Rightarrow> 32 word" where
  "be_word bs = foldl (\<lambda>acc b. push_bit 8 acc OR ucast b) 0 bs"

definition be_bytes :: "nat \<Rightarrow> 'a::len word \<Rightarrow> bytes" where
  "be_bytes n v = map (\<lambda>i. ucast (drop_bit (8 * (n - 1 - i)) v)) [0..<n]"

definition sha256_pad :: "bytes \<Rightarrow> bytes" where
  "sha256_pad msg =
     msg @ [0x80] @ replicate ((119 - length msg mod 64) mod 64) 0
       @ be_bytes 8 (of_nat (8 * length msg) :: 64 word)"

fun chunks :: "nat \<Rightarrow> 'a list \<Rightarrow> 'a list list" where
  "chunks n [] = []"
| "chunks n (x # xs) = (if n = 0 then [] else take n (x # xs) # chunks n (drop n (x # xs)))"

fun schedule :: "nat \<Rightarrow> 32 word list \<Rightarrow> 32 word list" where
  "schedule 0 w = w"
| "schedule (Suc k) w =
     (let i = length w;
          w15 = w ! (i - 15); w2 = w ! (i - 2);
          s0 = rotr 7 w15 XOR rotr 18 w15 XOR drop_bit 3 w15;
          s1 = rotr 17 w2 XOR rotr 19 w2 XOR drop_bit 10 w2
      in schedule k (w @ [w ! (i - 16) + s0 + w ! (i - 7) + s1]))"

definition round_step :: "32 word list \<Rightarrow> 32 word \<times> 32 word \<Rightarrow> 32 word list" where
  "round_step s kw =
     (case s of
        [a, b, c, d, e, f, g, h] \<Rightarrow>
          let S1 = rotr 6 e XOR rotr 11 e XOR rotr 25 e;
              ch = (e AND f) XOR ((NOT e) AND g);
              temp1 = h + S1 + ch + fst kw + snd kw;
              S0 = rotr 2 a XOR rotr 13 a XOR rotr 22 a;
              maj = (a AND b) XOR (a AND c) XOR (b AND c);
              temp2 = S0 + maj
          in [temp1 + temp2, a, b, c, d + temp1, e, f, g]
      | _ \<Rightarrow> s)"

definition compress :: "32 word list \<Rightarrow> bytes \<Rightarrow> 32 word list" where
  "compress H chunk =
     (let w = schedule 48 (map be_word (chunks 4 chunk));
          s = foldl round_step H (zip sha256_K w)
      in map2 (+) H s)"

definition Sum256 :: "bytes \<Rightarrow> bytes" where
  "Sum256 msg =
     concat (map (be_bytes 4) (foldl compress sha256_H0 (chunks 64 (sha256_pad msg))))"

text \<open>
  \<open>filepath.Clean\<close>, \<open>filepath.Join\<close> of two elements and \<open>filepath.Dir\<close> with
  the separator \<open>/\<close>: a path is split at the separators, empty and \<open>.\<close> elements are
  dropped, \<open>..\<close> removes the element before it (at the root it is dropped, at the start
  of a relative path it is kept), and the empty result is \<open>.\<close>.
\<close>

fun split_sep :: "string \<Rightarrow> string list" where
  "split_sep [] = [[]]"
| "split_sep (c # cs) =
     (if c = CHR ''/'' then [] # split_sep cs
      else (case split_sep cs of [] \<Rightarrow> [[c]] | x # xs \<Rightarrow> (c # x) # xs))"

fun join_sep :: "string list \<Rightarrow> string" where
  "join_sep [] = []"
| "join_sep [x] = x"
| "join_sep (x # y # zs) = x @ ''/'' @ join_sep (y # zs)"

definition clean_step :: "bool \<Rightarrow> string list \<Rightarrow> string \<Rightarrow> string list" where
  "clean_step rooted st c =
     (if c = [] \<or> c = ''.'' then st
      else if c = ''..'' then
        (if st \<noteq> [] \<and> last st \<noteq> ''..'' then butlast st
         else if rooted then st
         else st @ [''..''])
      else st @ [c])"

definition unix_Clean :: "string \<Rightarrow> string" where
  "unix_Clean path =
     (let rooted = (path \<noteq> [] \<and> hd path = CHR ''/'');
          out = (if rooted then ''/'' else []) @ join_sep (foldl (clean_step rooted) [] (split_sep path))
      in if out = [] then ''.'' else out)"

definition unix_Join :: "string \<Rightarrow> string \<Rightarrow> string" where
  "unix_Join a b =
     (if a = [] \<and> b = [] then []
      else unix_Clean (if a = [] then b else if b = [] then a else a @ ''/'' @ b))"

definition unix_Dir :: "string \<Rightarrow> string" where
  "unix_Dir path = unix_Clean (rev (dropWhile (\<lambda>c. c \<noteq> CHR ''/'') (rev path)))"

text \<open>
  A raw LZMA2 stream made of stored chunks only: the control byte 1 (an uncompressed chunk
  that resets the dictionary) is followed by the chunk size minus one in two bytes, high
  byte first, and by the data; the control byte 0 ends the stream.  Streams with other
  control bytes are outside this instance (\<open>None\<close>).
\<close>

function lzma2_stored :: "bytes \<Rightarrow> bytes option" where
  "lzma2_stored [] = None"
| "lzma2_stored (c # rest) =
     (if c = 0 then Some []
      else if c = 1 then
        (case rest of
           hi # lo # body \<Rightarrow>
             (let n = unat hi * 256 + unat lo + 1 in
              if length body < n then None
              else (case lzma2_stored (drop n body) of
                      None \<Rightarrow> None
                    | Some out \<Rightarrow> Some (take n body @ out)))
         | _ \<Rightarrow> None)
      else None)"
  by pat_completeness auto
termination
  by (relation "measure length") auto

declare lzma2_stored.simps [simp del]

definition example_platform :: platform where
  "example_platform =
     \<lparr>aes_cbc = (\<lambda>key iv src. src),
      lzma2_decode = lzma2_stored,
      sha256_sum = Sum256,
      path_Join = unix_Join,
      path_Dir = unix_Dir,
      mkdir_fails = (\<lambda>fs path. False),
      write_fails = (\<lambda>fs path. False)\<rparr>"

definition empty_fs :: filesystem where
  "empty_fs = \<lparr>dirs = {}, files = Map.empty\<rparr>"

section \<open>Example data\<close>

text \<open>A little-endian \<open>uint64\<close> field holding a value below 256.\<close>

definition le64 :: "byte \<Rightarrow> bytes" where
  "le64 b = [b, 0, 0, 0, 0, 0, 0, 0]"

text \<open>
  An archive of version 1.3.0 with two regions.  The first, of type 1, is a
  \<open>RegionBlockHeader\<close> (next region of type 6 and size 4, real size 3), the payload
  \<open><a>\<close> and five bytes of PKCS#7 padding, 48 bytes in all, stored in the clear as the
  null cipher has it; the second is the bulk region of four bytes.
\<close>

definition example_archive :: bytes where
  "example_archive =
     magic_NTPI @ [0, 0, 0, 0] @ le64 1 @ le64 3 @ le64 0 @ le64 1 @ le64 48
     @ (le64 1 @ le64 48 @ le64 6 @ le64 4 @ le64 3 @ [0x3C, 0x61, 0x3E] @ replicate 5 5)
     @ [1, 2, 3, 4]"

text \<open>
  A 112-byte \<open>NTEncodeHeader\<close> with the given processed and original sizes (below 256),
  all other fields zero.
\<close>

definition example_header :: "byte \<Rightarrow> byte \<Rightarrow> bytes" where
  "example_header processedSize originalSize =
     magic_NTENCODE @ replicate 16 0 @ le64 processedSize @ le64 originalSize @ replicate 72 0"

text \<open>
  A block holding three bytes of data \<open>d\<close>: the header, then 128 bytes that are, in
  the clear, a \<open>DecompressHeader\<close> and the LZMA2 stream of the one stored chunk \<open>d\<close>,
  filled with zero bytes.  It is 240 bytes long.
\<close>

definition example_block :: "bytes \<Rightarrow> bytes" where
  "example_block d =
     example_header 3 128
     @ magic_NTENCODE @ replicate 104 0
     @ [1, 0, 2] @ d @ [0, 0, 0, 0, 0, 0, 0, 0, 0, 0]"

definition example_file :: "string \<Rightarrow> string \<Rightarrow> nat \<Rightarrow> nat \<Rightarrow> FileInfo" where
  "example_file name hash partitionLength len =
     \<lparr>Name = name, FileSha256Hash = hash, PartitionSha256Hash = [], KeyIndex = 7,
      IsSparse = ''false'', IsEncrypted = ''true'', IsCompressed = ''true'',
      PartitionLength = partitionLength, OriginalLength = partitionLength,
      Offset = 0, Length = len\<rparr>"

text \<open>A task over a bulk region, with a key map of two keys read by \<open>os.ReadFile\<close>.\<close>

definition example_task :: "FileInfo \<Rightarrow> bytes \<Rightarrow> FileTask" where
  "example_task file region6 =
     ExtractFiles_task file region6 (replicate 64 0xAB) (replicate 448 0) ''out''"

text \<open>Three blocks, and one block followed by 112 zero bytes where a header should be.\<close>

definition zero_magic :: bytes where
  "zero_magic = [0, 0, 0, 0, 0, 0, 0, 0]"

definition three_blocks :: bytes where
  "three_blocks = example_block [7, 8, 9] @ example_block [4, 5, 6] @ example_block [1, 2, 3]"

definition torn_blocks :: bytes where
  "torn_blocks = example_block [7, 8, 9] @ zero_magic @ replicate 104 0"

section \<open>The blocks of a file\<close>

text \<open>
  The notions below describe a run of the block loops; the proofs about the segmenter are
  stated with them.
\<close>

text \<open>
  A chain of blocks: \<open>chain P task cur k bs fin\<close> says that the blocks \<open>bs\<close>, each given
  as its offset, the processed size of its header and its decompressed data, lie one
  after the other from offset \<open>cur\<close> to offset \<open>fin\<close>, and that block number \<open>k + j\<close>
  decrypts under the key of index \<open>KeyIndex + k + j\<close> and decompresses.
\<close>

fun chain :: "platform \<Rightarrow> FileTask \<Rightarrow> int \<Rightarrow> int \<Rightarrow> (int \<times> nat \<times> bytes) list \<Rightarrow> int \<Rightarrow> bool" where
  "chain P task cur k [] fin = (fin = cur)"
| "chain P task cur k (b # bs) fin =
     (fst b = cur \<and>
      (\<exists>key nxt pt hdr.
         ExtractKeyFromKeyMap (KeyMapData task) (KeyMapSpare task)
           (go_int (KeyIndex (FileInfo task) + k)) = Inr key
       \<and> DecryptNTEncodeBlock (aes_cbc P) (Region6Data task) cur key = Inr (nxt, pt)
       \<and> decompressLZMA2 (lzma2_decode P) pt = Inr (snd (snd b))
       \<and> ParseNTEncodeHeader (take 112 (drop (nat cur) (Region6Data task))) = Inr hdr
       \<and> fst (snd b) = NTEncodeHeader.ProcessedSize hdr
       \<and> chain P task nxt (k + 1) bs fin))"

text \<open>The boundaries and the accumulated size that the scan records for a chain.\<close>

fun mk_boundaries :: "int \<Rightarrow> nat \<Rightarrow> (int \<times> nat \<times> bytes) list \<Rightarrow> BlockBoundary list" where
  "mk_boundaries k a [] = []"
| "mk_boundaries k a (b # bs) =
     \<lparr>Offset = fst b, BlockIndex = k, AccumulatedSize = a\<rparr>
       # mk_boundaries (k + 1) (go_uint64 (int a + int (fst (snd b)))) bs"

fun total_size :: "nat \<Rightarrow> (int \<times> nat \<times> bytes) list \<Rightarrow> nat" where
  "total_size a [] = a"
| "total_size a (b # bs) = total_size (go_uint64 (int a + int (fst (snd b)))) bs"

text \<open>
  \<open>covers bnds E s segs\<close>: the segments \<open>segs\<close> divide the blocks from number \<open>s\<close> to
  the last one into consecutive non-empty runs, each segment holding the offset and the
  index of its first block, its number of blocks, and as its end the offset of the next
  segment's first block, or \<open>E\<close> for the last segment.
\<close>

fun covers :: "BlockBoundary list \<Rightarrow> int \<Rightarrow> nat \<Rightarrow> Segment list \<Rightarrow> bool" where
  "covers bnds E s [] = (s = length bnds)"
| "covers bnds E s (seg # rest) =
     (\<exists>n. 0 < n \<and> s + n \<le> length bnds
        \<and> StartOffset seg = Offset (bnds ! s)
        \<and> StartBlockIndex seg = BlockIndex (bnds ! s)
        \<and> NumBlocks seg = int n
        \<and> EndOffset seg = (if s + n = length bnds then E else Offset (bnds ! (s + n)))
        \<and> covers bnds E (s + n) rest)"

section \<open>Properties of the AES-CBC unit\<close>

lemma padding_loop_iff:
  "padding_loop data i p \<longleftrightarrow> (\<forall>j. i \<le> j \<and> j < length data \<longrightarrow> data ! j = p)"
proof (induction data i p rule: padding_loop.induct)
  case (1 data i p)
  show ?case
  proof (cases "i < length data")
    case False
    then show ?thesis by (subst padding_loop.simps) auto
  next
    case True
    show ?thesis
    proof (cases "data ! i = p")
      case False
      with True show ?thesis by (subst padding_loop.simps) auto
    next
      case eq: True
      have "padding_loop data i p = padding_loop data (i + 1) p"
        using True eq by (subst padding_loop.simps) simp
      also have "\<dots> \<longleftrightarrow> (\<forall>j. i + 1 \<le> j \<and> j < length data \<longrightarrow> data ! j = p)"
        using "1.IH" True eq by simp
      also have "\<dots> \<longleftrightarrow> (\<forall>j. i \<le> j \<and> j < length data \<longrightarrow> data ! j = p)"
      proof (intro iffI allI impI)
        fix j assume h: "\<forall>j. i + 1 \<le> j \<and> j < length data \<longrightarrow> data ! j = p" and j: "i \<le> j \<and> j < length data"
        show "data ! j = p"
        proof (cases "j = i")
          case True then show ?thesis using eq by simp
        next
          case False
          then have "i + 1 \<le> j" using j by simp
          then show ?thesis using h j by blast
        qed
      next
        fix j assume h: "\<forall>j. i \<le> j \<and> j < length data \<longrightarrow> data ! j = p" and j: "i + 1 \<le> j \<and> j < length data"
        then show "data ! j = p" by simp
      qed
      finally show ?thesis .
    qed
  qed
qed

lemma padding_loop_drop:
  assumes "i \<le> length data"
  shows "padding_loop data i p \<longleftrightarrow> (\<forall>b \<in> set (drop i data). b = p)"
proof -
  have "(\<forall>b \<in> set (drop i data). b = p) \<longleftrightarrow> (\<forall>k < length data - i. data ! (i + k) = p)"
    using assms by (simp add: all_set_conv_all_nth)
  also have "\<dots> \<longleftrightarrow> (\<forall>j. i \<le> j \<and> j < length data \<longrightarrow> data ! j = p)"
  proof (intro iffI allI impI)
    fix j assume h: "\<forall>k < length data - i. data ! (i + k) = p" and j: "i \<le> j \<and> j < length data"
    then have "j - i < length data - i" by arith
    with h have "data ! (i + (j - i)) = p" by blast
    then show "data ! j = p" using j by simp
  next
    fix k assume h: "\<forall>j. i \<le> j \<and> j < length data \<longrightarrow> data ! j = p" and "k < length data - i"
    then show "data ! (i + k) = p" by simp
  qed
  finally have e: "(\<forall>b \<in> set (drop i data). b = p) \<longleftrightarrow> (\<forall>j. i \<le> j \<and> j < length data \<longrightarrow> data ! j = p)" .
  show ?thesis unfolding padding_loop_iff e ..
qed

lemma length_CryptBlocks [simp]: "length (CryptBlocks cbc key iv src) = length src"
  by (simp add: CryptBlocks_def go_copy_def)


lemma go_int_id: "- (2 ^ 63) \<le> x \<Longrightarrow> x < 2 ^ 63 \<Longrightarrow> go_int x = x"
  unfolding go_int_def by (simp add: signed_take_bit_int_eq_self)

lemma go_int_range: "- (2 ^ 63) \<le> go_int x \<and> go_int x < 2 ^ 63"
  unfolding go_int_def
  using signed_take_bit_int_greater_eq_minus_exp [of 63 x] signed_take_bit_int_less_exp [of 63 x]
  by simp


lemma removePKCS7Padding_unfold:
  assumes "data \<noteq> []"
  shows "removePKCS7Padding data =
       (if unat (last data) = 0 \<or> unat (last data) > 16 \<or> unat (last data) > length data then data
        else if \<not> padding_loop data (length data - unat (last data)) (last data) then data
        else take (length data - unat (last data)) data)"
proof -
  have "data ! (length data - 1) = last data" using assms by (simp add: last_conv_nth)
  then show ?thesis using assms unfolding removePKCS7Padding_def Let_def by simp
qed


lemma removePKCS7Padding_cases:
  assumes "data \<noteq> []" and "16 \<le> length data"
  shows "removePKCS7Padding data =
     (if 1 \<le> unat (last data) \<and> unat (last data) \<le> 16
          \<and> (\<forall>b \<in> set (drop (length data - unat (last data)) data). unat b = unat (last data))
      then take (length data - unat (last data)) data else data)"
proof -
  define p where "p = unat (last data)"
  have eqp: "\<And>b::byte. (b = last data) = (unat b = p)"
    unfolding p_def by (auto intro: unsigned_word_eqI)
  have pl: "padding_loop data (length data - p) (last data)
            \<longleftrightarrow> (\<forall>b \<in> set (drop (length data - p) data). unat b = p)"
    by (simp only: padding_loop_drop [OF diff_le_self] eqp)
  show ?thesis
    unfolding removePKCS7Padding_unfold [OF assms(1)] p_def [symmetric] pl
    using assms(2) by auto
qed

text \<open>
  Claim C3 (PKCS#7 tolerance of \<open>DecryptAESCBC\<close>).  For a key of 16, 24 or 32 bytes, an
  IV of 16 bytes and a ciphertext whose length is a multiple of 16 the call never fails.
  With \<open>raw\<close> the CBC output and \<open>p\<close> its last byte: if \<open>1 \<le> p \<le> 16\<close> and the
  last \<open>p\<close> bytes of \<open>raw\<close> all equal \<open>p\<close>, the result is \<open>raw\<close> without these
  \<open>p\<close> bytes; in every other case (\<open>p = 0\<close>, \<open>p > 16\<close>, some of the last \<open>p\<close>
  bytes differs from \<open>p\<close>, or the buffer is empty) the result is \<open>raw\<close> unchanged.
\<close>

theorem decrypt_cbc_pkcs7_tolerance:
  assumes key: "length key = 16 \<or> length key = 24 \<or> length key = 32"
    and iv: "length iv = 16"
    and ct: "length ct mod 16 = 0"
  shows "DecryptAESCBC cbc ct (Some key) (Some iv) =
     (let raw = CryptBlocks cbc key iv ct; p = unat (last raw) in
      Inr (if raw \<noteq> [] \<and> 1 \<le> p \<and> p \<le> 16
              \<and> (\<forall>b \<in> set (drop (length raw - p) raw). unat b = p)
           then take (length raw - p) raw else raw))"
proof -
  define raw where "raw = CryptBlocks cbc key iv ct"
  have len: "length raw = length ct" by (simp add: raw_def)
  have D: "DecryptAESCBC cbc ct (Some key) (Some iv) = Inr (removePKCS7Padding raw)"
    using key iv ct by (auto simp: DecryptAESCBC_def NewCipher_def raw_def)
  show ?thesis
  proof (cases "raw = []")
    case True
    then show ?thesis unfolding D raw_def [symmetric] by (simp add: removePKCS7Padding_def)
  next
    case False
    then have "length ct \<noteq> 0" using len by auto
    then have "16 \<le> length raw" using ct len by (auto simp: mod_eq_0_iff_dvd dest: dvd_imp_le)
    from removePKCS7Padding_cases [OF False this] False
    show ?thesis unfolding D raw_def [symmetric] Let_def by simp
  qed
qed

text \<open>
  Claim C10 (nil key and IV).  A nil key behaves as 32 zero bytes and a nil IV as 16 zero
  bytes, whatever the other arguments are; and for a ciphertext whose length is a multiple
  of 16, \<open>DecryptAESCBC(ct, nil, nil)\<close> succeeds with the CBC decryption under the all-zero
  256-bit key and the all-zero IV, followed by the padding-tolerant strip.
\<close>

theorem DecryptAESCBC_nil_defaults:
  "DecryptAESCBC cbc ct None iv0 = DecryptAESCBC cbc ct (Some (replicate 32 0)) iv0
   \<and> DecryptAESCBC cbc ct key0 None = DecryptAESCBC cbc ct key0 (Some (replicate 16 0))
   \<and> (length ct mod 16 = 0 \<longrightarrow>
        DecryptAESCBC cbc ct None None =
          Inr (removePKCS7Padding (CryptBlocks cbc (replicate 32 0) (replicate 16 0) ct)))"
  by (simp add: DecryptAESCBC_def NewCipher_def)


theorem decrypt_cbc_pkcs7_tolerance_witness:
  "length (replicate 32 (0::byte)) = 32 \<and> length (replicate 16 (0::byte)) = 16
   \<and> length (replicate 12 (170::byte) @ replicate 4 4) mod 16 = 0
   \<and> DecryptAESCBC (\<lambda>k iv s. s) (replicate 12 170 @ replicate 4 4)
        (Some (replicate 32 0)) (Some (replicate 16 0)) = Inr (replicate 12 170)
   \<and> DecryptAESCBC (\<lambda>k iv s. s) (replicate 12 170 @ replicate 4 17)
        (Some (replicate 32 0)) (Some (replicate 16 0)) = Inr (replicate 12 170 @ replicate 4 17)"
  using decrypt_cbc_pkcs7_tolerance [of "replicate 32 0" "replicate 16 0"
          "replicate 12 170 @ replicate 4 4" "\<lambda>k iv s. s"]
        decrypt_cbc_pkcs7_tolerance [of "replicate 32 0" "replicate 16 0"
          "replicate 12 170 @ replicate 4 17" "\<lambda>k iv s. s"]
  by (simp add: CryptBlocks_def go_copy_def Let_def)

theorem DecryptAESCBC_nil_defaults_witness:
  "length (replicate 16 (9::byte)) mod 16 = 0
   \<and> DecryptAESCBC (\<lambda>k iv s. k @ iv) (replicate 16 9) None None = Inr (replicate 16 0)"
proof -
  have h: "length (replicate 16 (9::byte)) mod 16 = 0" by simp
  from DecryptAESCBC_nil_defaults [of "\<lambda>k iv s. k @ iv" "replicate 16 9" None None] h
  have "DecryptAESCBC (\<lambda>k iv s. k @ iv) (replicate 16 9) None None =
          Inr (removePKCS7Padding (CryptBlocks (\<lambda>k iv s. k @ iv) (replicate 32 0) (replicate 16 0) (replicate 16 9)))"
    by blast
  then show ?thesis
    by (simp add: CryptBlocks_def go_copy_def removePKCS7Padding_def)
qed
section \<open>Properties of the KeyMap accessor\<close>

lemma go_slice_ok:
  "0 \<le> lo \<Longrightarrow> lo \<le> hi \<Longrightarrow> hi \<le> int (length s) \<Longrightarrow>
   go_slice s lo hi = Inr (take (nat (hi - lo)) (drop (nat lo) s))"
  by (simp add: go_slice_def)

lemma ExtractKeyFromKeyMap_direct:
  assumes ne: "keymapData \<noteq> []"
    and k0: "0 \<le> keyIndex" and k1: "keyIndex < 2 ^ 58"
    and len: "int (length keymapData) + 32 < 2 ^ 63"
    and off: "off = nat ((keyIndex * 32) mod int (length keymapData))"
    and fit: "off + 32 \<le> length keymapData"
  shows "ExtractKeyFromKeyMap keymapData spare keyIndex = Inr (take 32 (drop off keymapData))"
proof -
  define n where "n = int (length keymapData)"
  have npos: "0 < n" using ne by (simp add: n_def)
  have g0: "go_int (keyIndex * 32) = keyIndex * 32"
    using k0 k1 by (intro go_int_id) auto
  define ko where "ko = (if keyIndex * 32 \<ge> n then (keyIndex * 32) mod n else keyIndex * 32)"
  have ko: "ko = int off"
    unfolding ko_def off n_def [symmetric] using k0 npos by (auto simp: mod_pos_pos_trivial)
  have lt: "int off < n" unfolding off n_def [symmetric] using npos by simp
  have g1: "go_int (int off + 32) = int off + 32"
    using lt len unfolding n_def by (intro go_int_id) auto
  have sl: "go_slice keymapData (int off) (int off + 32) = Inr (take 32 (drop off keymapData))"
    using fit by (simp add: go_slice_def)
  have "ExtractKeyFromKeyMap keymapData spare keyIndex =
        (case go_slice keymapData (int off) (int off + 32) of Inl e \<Rightarrow> Inl e
         | Inr part \<Rightarrow> Inr (go_copy (replicate 32 0) part))"
    unfolding ExtractKeyFromKeyMap_def Let_def g0 n_def [symmetric] ko_def [symmetric] ko g1
    using ne fit by (simp add: n_def)
  also have "\<dots> = Inr (take 32 (drop off keymapData))"
    unfolding sl using fit by (simp add: go_copy_def)
  finally show ?thesis .
qed

lemma ExtractKeyFromKeyMap_wrapped:
  assumes ne: "keymapData \<noteq> []"
    and k0: "0 \<le> keyIndex" and k1: "keyIndex < 2 ^ 58"
    and len: "int (length keymapData) + 32 < 2 ^ 63"
    and off: "off = nat ((keyIndex * 32) mod int (length keymapData))"
    and nofit: "\<not> off + 32 \<le> length keymapData"
    and fit2: "off + 32 \<le> 2 * length keymapData"
  shows "ExtractKeyFromKeyMap keymapData spare keyIndex =
           Inr (drop off keymapData @ take (32 - (length keymapData - off)) keymapData)"
proof -
  define n where "n = int (length keymapData)"
  have npos: "0 < n" using ne by (simp add: n_def)
  have g0: "go_int (keyIndex * 32) = keyIndex * 32"
    using k0 k1 by (intro go_int_id) auto
  define ko where "ko = (if keyIndex * 32 \<ge> n then (keyIndex * 32) mod n else keyIndex * 32)"
  have ko: "ko = int off"
    unfolding ko_def off n_def [symmetric] using k0 npos by (auto simp: mod_pos_pos_trivial)
  have lt: "int off < n" unfolding off n_def [symmetric] using npos by simp
  then have ltn: "off < length keymapData" by (simp add: n_def)
  have g1: "go_int (int off + 32) = int off + 32"
    using lt len unfolding n_def by (intro go_int_id) auto
  define firstPart where "firstPart = drop off keymapData"
  have lf: "length firstPart = length keymapData - off" by (simp add: firstPart_def)
  have lf32: "length firstPart < 32" using nofit lf by simp
  have s1: "go_slice keymapData (int off) n = Inr firstPart"
    using ltn by (simp add: go_slice_def n_def firstPart_def)
  define remaining where "remaining = 32 - length firstPart"
  have g2: "go_int (32 - int (length firstPart)) = int remaining"
    using lf32 unfolding remaining_def by (subst go_int_id) auto
  have rem_le: "remaining \<le> length keymapData"
    unfolding remaining_def lf using fit2 ltn by arith
  define secondPart where "secondPart = take remaining keymapData"
  have s2: "go_slice (keymapData @ spare) 0 (int remaining) = Inr secondPart"
    using rem_le by (simp add: go_slice_def secondPart_def)
  have ls: "length secondPart = remaining" using rem_le by (simp add: secondPart_def)
  define key where "key = go_copy (replicate 32 (0::byte)) firstPart"
  have key: "key = firstPart @ replicate remaining 0"
    unfolding key_def go_copy_def remaining_def using lf32 by simp
  have s3: "go_slice key (int (length firstPart)) 32 = Inr (replicate remaining 0)"
    unfolding key using lf32 by (simp add: go_slice_def remaining_def)
  have fin: "take (length firstPart) key @ go_copy (replicate remaining 0) secondPart
               = firstPart @ secondPart"
    unfolding key by (simp add: go_copy_def ls)
  have "ExtractKeyFromKeyMap keymapData spare keyIndex =
        (case go_slice keymapData (int off) n of Inl e \<Rightarrow> Inl e
         | Inr firstPart \<Rightarrow>
            (case go_slice (keymapData @ spare) 0 (go_int (32 - int (length firstPart))) of
               Inl e \<Rightarrow> Inl e
             | Inr secondPart \<Rightarrow>
                (case go_slice (go_copy (replicate 32 0) firstPart) (int (length firstPart)) 32 of
                   Inl e \<Rightarrow> Inl e
                 | Inr rest \<Rightarrow>
                     Inr (take (length firstPart) (go_copy (replicate 32 0) firstPart)
                          @ go_copy rest secondPart))))"
    unfolding ExtractKeyFromKeyMap_def Let_def g0 n_def [symmetric] ko_def [symmetric] ko g1
    using ne nofit by (simp add: n_def)
  also have "\<dots> = Inr (firstPart @ secondPart)"
    unfolding s1 sum.case g2 s2 key_def [symmetric] s3 fin ..
  finally show ?thesis
    unfolding firstPart_def secondPart_def remaining_def by simp
qed


text \<open>
  Claim C2 (KeyMap wrap rule), amended.  For every non-empty table of length \<open>n\<close> and every
  index with \<open>0 \<le> index < 2 ^ 58\<close> (so that \<open>index * 32\<close> does not overflow \<open>int\<close>),
  with \<open>offset = (index * 32) mod n\<close> and \<open>offset + 32 \<le> 2 * n\<close> (so that
  \<open>(table ++ table)[offset .. offset + 32]\<close> exists), \<open>ExtractKeyFromKeyMap\<close> returns the
  32 bytes \<open>(table ++ table)[offset .. offset + 32]\<close>: the direct go_slice when
  \<open>offset + 32 \<le> n\<close>, and otherwise \<open>table[offset..]\<close> followed by
  \<open>table[.. 32 - (n - offset)]\<close>.
\<close>

theorem ExtractKeyFromKeyMap_wrap_rule:
  assumes ne: "keymapData \<noteq> []"
    and k0: "0 \<le> keyIndex" and k1: "keyIndex < 2 ^ 58"
    and len: "int (length keymapData) + 32 < 2 ^ 63"
    and off: "off = nat ((keyIndex * 32) mod int (length keymapData))"
    and fit2: "off + 32 \<le> 2 * length keymapData"
  shows "ExtractKeyFromKeyMap keymapData spare keyIndex
           = Inr (take 32 (drop off (keymapData @ keymapData)))
       \<and> length (take 32 (drop off (keymapData @ keymapData))) = 32
       \<and> take 32 (drop off (keymapData @ keymapData))
           = (if off + 32 \<le> length keymapData then take 32 (drop off keymapData)
              else drop off keymapData @ take (32 - (length keymapData - off)) keymapData)"
proof -
  have "int off < int (length keymapData)"
    unfolding off using ne by simp
  then have ltn: "off < length keymapData" by simp
  have shape: "take 32 (drop off (keymapData @ keymapData))
           = (if off + 32 \<le> length keymapData then take 32 (drop off keymapData)
              else drop off keymapData @ take (32 - (length keymapData - off)) keymapData)"
    using ltn by simp
  have l32: "length (take 32 (drop off (keymapData @ keymapData))) = 32"
    using fit2 by simp
  show ?thesis
  proof (cases "off + 32 \<le> length keymapData")
    case True
    from ExtractKeyFromKeyMap_direct [OF ne k0 k1 len off True] shape l32 True
    show ?thesis by simp
  next
    case False
    from ExtractKeyFromKeyMap_wrapped [OF ne k0 k1 len off False fit2] shape l32 False
    show ?thesis by simp
  qed
qed

theorem ExtractKeyFromKeyMap_wrap_rule_witness:
  "[1, 2, 3, 4 :: byte] @ replicate 30 5 \<noteq> []
   \<and> (0::int) \<le> 1 \<and> (1::int) < 2 ^ 58
   \<and> int (length ([1, 2, 3, 4 :: byte] @ replicate 30 5)) + 32 < 2 ^ 63
   \<and> (32::nat) = nat ((1 * 32) mod int (length ([1, 2, 3, 4 :: byte] @ replicate 30 5)))
   \<and> (32::nat) + 32 \<le> 2 * length ([1, 2, 3, 4 :: byte] @ replicate 30 5)
   \<and> ExtractKeyFromKeyMap ([1, 2, 3, 4] @ replicate 30 5) [] 1
        = Inr ([5, 5] @ [1, 2, 3, 4] @ replicate 26 5)"
  using ExtractKeyFromKeyMap_wrap_rule [of "[1, 2, 3, 4] @ replicate 30 5" 1 32 "[]"]
  by (simp add: numeral_eq_Suc)

theorem ExtractKeyFromKeyMap_counterexample:
  "ExtractKeyFromKeyMap [] [] 0 = Inl KeymapEmpty
   \<and> ExtractKeyFromKeyMap (replicate 64 7) [] (2 ^ 58) = Inl Panic
   \<and> ExtractKeyFromKeyMap [1, 2, 3] (replicate 40 9) 0 = Inr ([1, 2, 3] @ [1, 2, 3] @ replicate 26 9)"
  by (simp add: ExtractKeyFromKeyMap_def go_int_def go_slice_def go_copy_def numeral_eq_Suc)

section \<open>Wrap-around arithmetic\<close>

lemma go_int_alt: "go_int x = (x + 2 ^ 63) mod 2 ^ 64 - 2 ^ 63"
  unfolding go_int_def by (simp add: signed_take_bit_eq_take_bit_shift take_bit_eq_mod)

lemma go_int_wrap: "\<exists>k. go_int x = x + k * 2 ^ 64"
proof -
  have "(x + 2 ^ 63) mod 2 ^ 64 = (x + 2 ^ 63) - ((x + 2 ^ 63) div 2 ^ 64) * 2 ^ 64"
    by (simp add: minus_div_mult_eq_mod [symmetric])
  then have "go_int x = x + (- ((x + 2 ^ 63) div 2 ^ 64)) * 2 ^ 64"
    unfolding go_int_alt by simp
  then show ?thesis by blast
qed

lemma go_int_add_up:
  assumes "0 \<le> a" "0 \<le> b" "b < 2 ^ 64" "a \<le> go_int (a + b)"
  shows "go_int (a + b) = a + b"
proof -
  obtain k where k: "go_int (a + b) = a + b + k * 2 ^ 64" using go_int_wrap by blast
  have r: "go_int (a + b) < 2 ^ 63" using go_int_range by blast
  have "k = 0"
  proof (rule ccontr)
    assume "k \<noteq> 0"
    then consider "k \<le> - 1" | "1 \<le> k" by linarith
    then show False
    proof cases
      case 1
      then have "k * 2 ^ 64 \<le> - 1 * (2 ^ 64 :: int)" by (intro mult_right_mono) auto
      with k assms show False by simp
    next
      case 2
      then have "1 * (2 ^ 64 :: int) \<le> k * 2 ^ 64" by (intro mult_right_mono) auto
      with k r assms show False by simp
    qed
  qed
  with k show ?thesis by simp
qed

lemma le_uint_bound: "le_uint bs < 256 ^ length bs"
proof (induction bs)
  case Nil
  then show ?case by (simp add: le_uint_def)
next
  case (Cons b bs)
  have "unat b < 2 ^ LENGTH(8)" by (rule unsigned_less)
  then have "unat b < 256" by simp
  moreover have "le_uint (b # bs) = unat b + 256 * le_uint bs" by (simp add: le_uint_def)
  moreover have "le_uint bs + 1 \<le> 256 ^ length bs" using Cons by simp
  then have "256 * (le_uint bs + 1) \<le> 256 * 256 ^ length bs" by (rule mult_le_mono2)
  ultimately show ?case by simp
qed

lemma le_uint_field8: "le_uint (field data off 8) < 2 ^ 64"
proof -
  have "le_uint (field data off 8) < 256 ^ length (field data off 8)" by (rule le_uint_bound)
  also have "\<dots> \<le> (256::nat) ^ 8" by (intro power_increasing) (auto simp: field_def)
  also have "\<dots> = 2 ^ 64" by simp
  finally show ?thesis .
qed

lemma ParseNTEncodeHeader_OriginalSize:
  "ParseNTEncodeHeader hb = Inr header \<Longrightarrow> NTEncodeHeader.OriginalSize header < 2 ^ 64"
  using le_uint_field8 [of hb 32]
  by (auto simp: ParseNTEncodeHeader_def Let_def split: if_splits)


lemma go_int_high:
  assumes "2 ^ 63 \<le> x" "x < 2 ^ 64"
  shows "go_int x = x - 2 ^ 64"
proof -
  define y where "y = x - 2 ^ 63"
  have y: "0 \<le> y" "y < 2 ^ 64" using assms by (auto simp: y_def)
  have "x + 2 ^ 63 = y + 2 ^ 64" by (simp add: y_def)
  then have "(x + 2 ^ 63) mod 2 ^ 64 = (y + 2 ^ 64) mod 2 ^ 64" by (rule arg_cong)
  also have "\<dots> = y mod 2 ^ 64" by (rule mod_add_self2)
  also have "\<dots> = y" using y by (rule mod_pos_pos_trivial)
  finally have "go_int x = y - 2 ^ 63" unfolding go_int_alt by (rule arg_cong)
  then show ?thesis by (simp add: y_def)
qed

section \<open>Block decryption and the termination of the loops\<close>

lemma go_slice_InrD:
  "go_slice s lo hi = Inr r \<Longrightarrow>
     0 \<le> lo \<and> lo \<le> hi \<and> hi \<le> int (length s) \<and> r = take (nat (hi - lo)) (drop (nat lo) s)"
  by (auto simp: go_slice_def split: if_splits)

lemma DecryptNTEncodeBlock_InrE:
  assumes "DecryptNTEncodeBlock cbc r6 off key = Inr (nxt, pt)"
  obtains hb header ct where
    "go_slice r6 off (go_int (off + 112)) = Inr hb"
    "ParseNTEncodeHeader hb = Inr header"
    "nxt = go_int (go_int (off + 112) + go_int (int (NTEncodeHeader.OriginalSize header)))"
    "go_slice r6 (go_int (off + 112)) nxt = Inr ct"
    "DecryptAESCBC cbc ct (Some key) (Some (GetIV header)) = Inr pt"
  using assms unfolding DecryptNTEncodeBlock_def Let_def
  by (auto split: if_splits sum.splits)

lemma DecryptNTEncodeBlock_advance:
  assumes ok: "DecryptNTEncodeBlock cbc r6 off key = Inr (nxt, pt)"
  shows "\<exists>header. ParseNTEncodeHeader (take 112 (drop (nat off) r6)) = Inr header
            \<and> nxt = off + 112 + int (NTEncodeHeader.OriginalSize header)
            \<and> 0 \<le> off \<and> nxt \<le> int (length r6) \<and> nxt < 2 ^ 63"
proof -
  from ok obtain hb header ct where
    s1: "go_slice r6 off (go_int (off + 112)) = Inr hb"
    and ph: "ParseNTEncodeHeader hb = Inr header"
    and nx: "nxt = go_int (go_int (off + 112) + go_int (int (NTEncodeHeader.OriginalSize header)))"
    and s2: "go_slice r6 (go_int (off + 112)) nxt = Inr ct"
    by (rule DecryptNTEncodeBlock_InrE)
  from go_slice_InrD [OF s1] have off0: "0 \<le> off" and le1: "off \<le> go_int (off + 112)"
    and hb: "hb = take (nat (go_int (off + 112) - off)) (drop (nat off) r6)" by auto
  have g1: "go_int (off + 112) = off + 112"
    using off0 le1 by (intro go_int_add_up) auto
  from go_slice_InrD [OF s2] have le2: "off + 112 \<le> nxt" and le3: "nxt \<le> int (length r6)"
    unfolding g1 by auto
  define orig where "orig = int (NTEncodeHeader.OriginalSize header)"
  have o0: "0 \<le> orig" and o1: "orig < 2 ^ 64"
    using ParseNTEncodeHeader_OriginalSize [OF ph] by (auto simp: orig_def)
  have r: "nxt < 2 ^ 63" unfolding nx using go_int_range by blast
  have g2: "go_int orig = orig"
  proof (cases "orig < 2 ^ 63")
    case True
    then show ?thesis using o0 by (intro go_int_id) auto
  next
    case False
    have "go_int orig = orig - 2 ^ 64"
      using False o1 by (intro go_int_high) auto
    then have "off + 112 + go_int orig < 2 ^ 63" "- (2 ^ 63) \<le> off + 112 + go_int orig"
      using o1 False off0 le2 r by auto
    then have "go_int (off + 112 + go_int orig) = off + 112 + go_int orig"
      by (intro go_int_id) auto
    then have "nxt < off + 112"
      unfolding nx g1 orig_def [symmetric] using \<open>go_int orig = orig - 2 ^ 64\<close> o1 by simp
    with le2 show ?thesis by simp
  qed
  have g3: "go_int (off + 112 + orig) = off + 112 + orig"
    using le2 off0 o0 o1 unfolding nx g1 orig_def [symmetric] g2
    by (intro go_int_add_up) auto
  have "nxt = off + 112 + orig"
    unfolding nx g1 orig_def [symmetric] g2 g3 ..
  moreover have "hb = take 112 (drop (nat off) r6)" unfolding hb g1 by simp
  ultimately show ?thesis using ph off0 le3 r unfolding orig_def by blast
qed


lemma DecryptNTEncodeBlock_measure:
  assumes "DecryptNTEncodeBlock cbc r6 off key = Inr (nxt, pt)"
  shows "nat (int (length r6) - nxt) < nat (int (length r6) - off)"
  using DecryptNTEncodeBlock_advance [OF assms] by auto

lemma processFileSequential_loop_total:
  "processFileSequential_loop_dom (P, task, endOffset, currentOffset, blockIndex, fileData)"
proof (induction "nat (int (length (Region6Data task)) - currentOffset)"
         arbitrary: currentOffset blockIndex fileData rule: less_induct)
  case less
  show ?case
  proof (rule processFileSequential_loop.domintros)
    fix key nxt pt d
    assume "DecryptNTEncodeBlock (aes_cbc P) (Region6Data task) currentOffset key = Inr (nxt, pt)"
    then have "nat (int (length (Region6Data task)) - nxt)
                 < nat (int (length (Region6Data task)) - currentOffset)"
      by (rule DecryptNTEncodeBlock_measure)
    then show "processFileSequential_loop_dom
                 (P, task, endOffset, nxt, go_int (blockIndex + 1), fileData @ d)"
      by (rule less)
  qed
qed

termination processFileSequential_loop
proof (rule allI)
  fix x show "processFileSequential_loop_dom x"
    by (cases x) (simp add: processFileSequential_loop_total)
qed

declare processFileSequential_loop.simps [simp del]

lemma processSegment_loop_total:
  "processSegment_loop_dom (P, task, segment, currentOffset, blockCount, segmentData)"
proof (induction "nat (int (length (Region6Data task)) - currentOffset)"
         arbitrary: currentOffset blockCount segmentData rule: less_induct)
  case less
  show ?case
  proof (rule processSegment_loop.domintros)
    fix key nxt pt d
    assume "DecryptNTEncodeBlock (aes_cbc P) (Region6Data task) currentOffset key = Inr (nxt, pt)"
    then have "nat (int (length (Region6Data task)) - nxt)
                 < nat (int (length (Region6Data task)) - currentOffset)"
      by (rule DecryptNTEncodeBlock_measure)
    then show "processSegment_loop_dom
                 (P, task, segment, nxt, go_int (blockCount + 1), segmentData @ d)"
      by (rule less)
  qed
qed

termination processSegment_loop
proof (rule allI)
  fix x show "processSegment_loop_dom x"
    by (cases x) (simp add: processSegment_loop_total)
qed

declare processSegment_loop.simps [simp del]


lemma length_removePKCS7Padding: "length (removePKCS7Padding data) \<le> length data"
  by (simp add: removePKCS7Padding_def Let_def)

lemma DecryptAESCBC_length:
  "DecryptAESCBC cbc ct key iv = Inr pt \<Longrightarrow> length pt \<le> length ct"
  using length_removePKCS7Padding [of "CryptBlocks cbc k v ct" for k v]
  by (auto simp: DecryptAESCBC_def Let_def split: if_splits sum.splits)

lemma DecryptRegionData_length:
  "DecryptRegionData cbc ct regionType keyDict = Inr pt \<Longrightarrow> length pt \<le> length ct"
  by (auto simp: DecryptRegionData_def split: sum.splits dest: DecryptAESCBC_length)

lemma extractRegion_next:
  assumes "extractRegion P fileData regionHeader offset outputDir keyDict fs = Inr (nxt, Some r, fs')"
  shows "\<exists>regionData decryptedData blockHeader.
           RegionType regionHeader \<noteq> 6
         \<and> go_slice fileData offset nxt = Inr regionData
         \<and> nxt = go_int (offset + go_int (int (RegionSize regionHeader)))
         \<and> DecryptRegionData (aes_cbc P) regionData (RegionType regionHeader) keyDict = Inr decryptedData
         \<and> 40 \<le> length decryptedData
         \<and> ParseRegionBlockHeader decryptedData = Inr blockHeader
         \<and> r = NextHeader blockHeader \<and> RegionSize r > 0"
  using assms unfolding extractRegion_def Let_def
  by (auto split: if_splits sum.splits option.splits)

lemma extractRegion_measure:
  assumes "extractRegion P fileData regionHeader offset outputDir keyDict fs = Inr (nxt, Some r, fs')"
  shows "nat (int (length fileData) - nxt) < nat (int (length fileData) - offset)"
proof -
  from extractRegion_next [OF assms] obtain regionData decryptedData where
    s: "go_slice fileData offset nxt = Inr regionData"
    and d: "DecryptRegionData (aes_cbc P) regionData (RegionType regionHeader) keyDict = Inr decryptedData"
    and l: "40 \<le> length decryptedData" by blast
  from go_slice_InrD [OF s] have b: "0 \<le> offset" "offset \<le> nxt" "nxt \<le> int (length fileData)"
    and rd: "regionData = take (nat (nxt - offset)) (drop (nat offset) fileData)" by auto
  have "length regionData \<le> nat (nxt - offset)" unfolding rd by simp
  with DecryptRegionData_length [OF d] l have "40 \<le> nat (nxt - offset)" by linarith
  with b show ?thesis by linarith
qed

lemma ParseNTPIFile_loop_total:
  "ParseNTPIFile_loop_dom (P, fileData, outputDir, keyDict, currentOffset, currentRegion, regionCount0, fs)"
proof (induction "nat (int (length fileData) - currentOffset)"
         arbitrary: currentOffset currentRegion regionCount0 fs rule: less_induct)
  case less
  show ?case
  proof (rule ParseNTPIFile_loop.domintros)
    fix nxt fs' r
    assume "extractRegion P fileData currentRegion currentOffset outputDir keyDict fs = Inr (nxt, Some r, fs')"
    then have "nat (int (length fileData) - nxt) < nat (int (length fileData) - currentOffset)"
      by (rule extractRegion_measure)
    then show "ParseNTPIFile_loop_dom (P, fileData, outputDir, keyDict, nxt, r, Suc regionCount0, fs')"
      by (rule less)
  qed
qed

termination ParseNTPIFile_loop
proof (rule allI)
  fix x show "ParseNTPIFile_loop_dom x"
    by (cases x) (auto simp: ParseNTPIFile_loop_total)
qed

declare ParseNTPIFile_loop.simps [simp del]

lemma le_uint_Nil: "le_uint [] = 0"
  by (simp add: le_uint_def)

lemma le_uint_Cons: "le_uint (b # bs) = unat b + 256 * le_uint bs"
  by (simp add: le_uint_def)

lemma le_uint_replicate0: "le_uint (replicate n 0) = 0"
  by (induction n) (simp_all add: le_uint_Nil le_uint_Cons)

lemmas le_uint_simps = le_uint_Nil le_uint_Cons le_uint_replicate0

lemmas block_eval =
  DecryptNTEncodeBlock_def example_header_def le64_def magic_NTENCODE_def go_int_def go_slice_def
  ParseNTEncodeHeader_def field_def le_uint_simps Let_def DecryptAESCBC_def NewCipher_def
  GetIV_def CryptBlocks_def go_copy_def removePKCS7Padding_def

text \<open>
  Claim C9 (termination of the block loops).  A successful call of
  \<open>DecryptNTEncodeBlock\<close> at \<open>offset\<close> has parsed a header there and returns the next
  offset \<open>offset + 112 + header.OriginalSize\<close>, computed without wrap-around, which is
  at least \<open>offset + 112\<close> and at most the length of the region.  Hence the cursor of
  the sequential loop and of the per-segment loop strictly advances in each iteration, and
  both loops terminate from every state: their domain predicates hold everywhere.
\<close>

theorem DecryptNTEncodeBlock_next_offset:
  assumes "DecryptNTEncodeBlock cbc region6Data offset key = Inr (nextOffset, decryptedData)"
  shows "(\<exists>header. ParseNTEncodeHeader (take 112 (drop (nat offset) region6Data)) = Inr header
            \<and> nextOffset = offset + 112 + int (NTEncodeHeader.OriginalSize header))
       \<and> offset + 112 \<le> nextOffset
       \<and> nextOffset \<le> int (length region6Data)
       \<and> (\<forall>s. processFileSequential_loop_dom s)
       \<and> (\<forall>s. processSegment_loop_dom s)"
proof -
  from DecryptNTEncodeBlock_advance [OF assms] obtain header where
    h: "ParseNTEncodeHeader (take 112 (drop (nat offset) region6Data)) = Inr header"
       "nextOffset = offset + 112 + int (NTEncodeHeader.OriginalSize header)"
       "nextOffset \<le> int (length region6Data)"
    by blast
  have d1: "processFileSequential_loop_dom s" for s
    by (cases s) (simp add: processFileSequential_loop_total)
  have d2: "processSegment_loop_dom s" for s
    by (cases s) (simp add: processSegment_loop_total)
  from h d1 d2 show ?thesis by auto
qed

theorem DecryptNTEncodeBlock_next_offset_witness:
  "DecryptNTEncodeBlock (\<lambda>key iv src. src) (example_header 3 16 @ replicate 16 170) 0
       (replicate 32 0) = Inr (128, replicate 16 170)
   \<and> (0::int) + 112 \<le> 128
   \<and> (128::int) \<le> int (length (example_header 3 16 @ replicate 16 170))"
proof -
  have ok: "DecryptNTEncodeBlock (\<lambda>key iv src. src) (example_header 3 16 @ replicate 16 170) 0
       (replicate 32 0) = Inr (128, replicate 16 170)"
    by (simp add: block_eval)
  from DecryptNTEncodeBlock_next_offset [OF ok] ok show ?thesis by blast
qed

section \<open>The key registry\<close>

lemma GetAESDictForVersion_total:
  "GetAESDictForVersion major minor patch = Some AESDict_V1_3_0"
  by (simp add: GetAESDictForVersion_def VersionKeyMap_def DefaultAESDict_def Let_def
           split: option.splits prod.splits)

lemma ParseNTPIFile_keyDict_never_warns:
  "ParseNTPIFile_keyDict header = (False, AESDict_V1_3_0)"
  by (simp add: ParseNTPIFile_keyDict_def GetAESDictForVersion_total)

lemma GetAESDictForVersion_known:
  "GetAESDictForVersion 1 3 0 = Some AESDict_V1_3_0
   \<and> map_of VersionKeyMap (digits 1 @ ''.'' @ digits 3 @ ''.'' @ digits 0) = Some AESDict_V1_3_0
   \<and> map_of VersionKeyMap (digits 1 @ ''.'' @ digits 3 @ ''.'' @ digits 7) = None
   \<and> GetAESDictForVersion 1 3 7 = Some AESDict_V1_3_0"
  by (simp add: GetAESDictForVersion_def VersionKeyMap_def digits.simps)

text \<open>
  Claim C7 (key registry contract).  The lookup order (exact triple, then
  \<open>major.minor\<close> prefix, then the default 1.3.0 set) is as claimed.  The hint is not: for
  the unknown version 9.9.9 the registry returns the default set as an ordinary non-nil
  dictionary, and the branch of \<open>ParseNTPIFile\<close> that would print the warning is not
  taken.
\<close>

theorem registry_unknown_version_no_hint:
  "map_of VersionKeyMap (digits 9 @ ''.'' @ digits 9 @ ''.'' @ digits 9) = None
   \<and> GetAESDictForVersion 9 9 9 = Some DefaultAESDict
   \<and> ParseNTPIFile_keyDict
        \<lparr>NTPIHeader.Magic = magic_NTPI, NTPIHeader.Padding = 0, VersionMajor = 9,
         VersionMinor = 9, VersionPatch = 9,
         FirstRegion = \<lparr>RegionType = 6, RegionSize = 0\<rparr>\<rparr> = (False, DefaultAESDict)"
  by (simp add: ParseNTPIFile_keyDict_def GetAESDictForVersion_def VersionKeyMap_def
        DefaultAESDict_def digits.simps)

section \<open>Stage 1: the walk over the regions\<close>

lemma region_bounds:
  assumes "0 \<le> off" "off + int sz \<le> int (length fileData)" "int (length fileData) < 2 ^ 63"
  shows "go_int (int sz) = int sz" "go_int (off + int sz) = off + int sz"
        "go_slice fileData off (off + int sz) = Inr (take sz (drop (nat off) fileData))"
proof -
  show a: "go_int (int sz) = int sz" using assms by (intro go_int_id) auto
  show "go_int (off + int sz) = off + int sz" using assms by (intro go_int_id) auto
  show "go_slice fileData off (off + int sz) = Inr (take sz (drop (nat off) fileData))"
    using assms by (simp add: go_slice_def)
qed

lemma extractRegion_type6:
  assumes t: "RegionType r = 6"
    and b: "0 \<le> off" "off + int (RegionSize r) \<le> int (length fileData)"
           "int (length fileData) < 2 ^ 63"
  shows "extractRegion P fileData r off outputDir keyDict fs =
     (case WriteFile P (path_Join P outputDir ''region6block.bin'')
             (take (RegionSize r) (drop (nat off) fileData)) fs of
        None \<Rightarrow> Inl SaveRegion6Failed
      | Some fs' \<Rightarrow> Inr (- 1, None, fs'))"
  unfolding extractRegion_def Let_def region_bounds [OF b]
  using t b by simp

lemma extractRegion_metadata:
  assumes t: "RegionType r \<noteq> 6"
    and b: "0 \<le> off" "off + int (RegionSize r) \<le> int (length fileData)"
           "int (length fileData) < 2 ^ 63"
    and d: "DecryptRegionData (aes_cbc P) (take (RegionSize r) (drop (nat off) fileData))
              (RegionType r) keyDict = Inr decryptedData"
    and h: "ParseRegionBlockHeader decryptedData = Inr blockHeader"
    and s: "40 + RealSize blockHeader \<le> length decryptedData"
  shows "extractRegion P fileData r off outputDir keyDict fs =
     (case WriteFile P
             (path_Join P outputDir
                (RegionName (RegionType r) @ (if RegionType r = 4 then ''.bin'' else ''.xml'')))
             (take (RealSize blockHeader) (drop 40 decryptedData)) fs of
        None \<Rightarrow> Inl SaveFileFailed
      | Some fs' \<Rightarrow>
          if RegionSize (NextHeader blockHeader) > 0
          then Inr (off + int (RegionSize r), Some (NextHeader blockHeader), fs')
          else Inr (- 1, None, fs'))"
proof -
  have l40: "\<not> length decryptedData < 40" using s by simp
  have l63: "int (length decryptedData) < 2 ^ 63"
    using DecryptRegionData_length [OF d] b by simp
  have b2: "(0::int) \<le> 40" "40 + int (RealSize blockHeader) \<le> int (length decryptedData)"
    using s by auto
  note rb = region_bounds [OF b2 l63]
  have sl: "go_slice decryptedData 40 (40 + int (RealSize blockHeader))
              = Inr (take (RealSize blockHeader) (drop 40 decryptedData))"
    using rb(3) by simp
  show ?thesis
    using t b l40 b2
    by (simp add: extractRegion_def Let_def region_bounds [OF b] d h rb(1) rb(2) sl
             split: option.splits)
qed

lemmas stage1_eval =
  example_archive_def le64_def magic_NTPI_def ParseNTPIHeader_def read_RegionHeader_def field_def
  le_uint_simps Let_def ParseRegionBlockHeader_def

lemma ex_header: "ParseNTPIHeader example_archive =
  Inr \<lparr>NTPIHeader.Magic = magic_NTPI, NTPIHeader.Padding = 0, VersionMajor = 1, VersionMinor = 3,
       VersionPatch = 0, FirstRegion = \<lparr>RegionType = 1, RegionSize = 48\<rparr>\<rparr>"
  by (simp add: stage1_eval)

lemma ex_keys: "GetKeyIVForRegion 1 AESDict_V1_3_0 = Inr (k, v) \<Longrightarrow> length k = 32 \<and> length v = 16"
  by (auto simp: GetKeyIVForRegion_def GetKeyForRegion_def GetIVForRegion_def AESDict_V1_3_0_def
      digits.simps fromHexChar_def Let_def split: option.splits)

lemma ex_region1: "DecryptRegionData (aes_cbc example_platform) (take 48 (drop 48 example_archive)) 1 AESDict_V1_3_0
   = Inr (le64 1 @ le64 48 @ le64 6 @ le64 4 @ le64 3 @ [0x3C, 0x61, 0x3E])"
  by (simp add: DecryptRegionData_def GetKeyIVForRegion_def GetKeyForRegion_def GetIVForRegion_def AESDict_V1_3_0_def
      digits.simps fromHexChar_def Let_def example_platform_def DecryptAESCBC_def NewCipher_def CryptBlocks_def
      go_copy_def removePKCS7Padding_def example_archive_def le64_def magic_NTPI_def padding_loop.simps)


lemma ParseNTPIFile_loop_type6:
  assumes t: "RegionType region = 6"
    and b: "0 \<le> offset" "offset + int (RegionSize region) \<le> int (length fileData)"
           "int (length fileData) < 2 ^ 63"
    and w: "\<not> write_fails P fs (path_Join P outputDir ''region6block.bin'')"
  shows "ParseNTPIFile_loop P fileData outputDir keyDict offset region n fs =
           Inr (n + 1, fs\<lparr>files := (files fs)(path_Join P outputDir ''region6block.bin''
                              \<mapsto> take (RegionSize region) (drop (nat offset) fileData))\<rparr>)"
  by (subst ParseNTPIFile_loop.simps)
     (simp add: extractRegion_type6 [OF t b] WriteFile_def w)

lemma ParseNTPIFile_loop_metadata:
  assumes t: "RegionType region \<noteq> 6"
    and b: "0 \<le> offset" "offset + int (RegionSize region) \<le> int (length fileData)"
           "int (length fileData) < 2 ^ 63"
    and d: "DecryptRegionData (aes_cbc P) (take (RegionSize region) (drop (nat offset) fileData))
              (RegionType region) keyDict = Inr decryptedData"
    and h: "ParseRegionBlockHeader decryptedData = Inr blockHeader"
    and s: "40 + RealSize blockHeader \<le> length decryptedData"
    and w: "\<not> write_fails P fs (path_Join P outputDir
              (RegionName (RegionType region) @ (if RegionType region = 4 then ''.bin'' else ''.xml'')))"
  shows "ParseNTPIFile_loop P fileData outputDir keyDict offset region n fs =
     (let fs' = fs\<lparr>files := (files fs)(path_Join P outputDir
                    (RegionName (RegionType region)
                       @ (if RegionType region = 4 then ''.bin'' else ''.xml''))
                  \<mapsto> take (RealSize blockHeader) (drop 40 decryptedData))\<rparr>
      in if RegionSize (NextHeader blockHeader) > 0
         then ParseNTPIFile_loop P fileData outputDir keyDict (offset + int (RegionSize region))
                (NextHeader blockHeader) (n + 1) fs'
         else Inr (n + 1, fs'))"
proof -
  have "offset + int (RegionSize region) \<noteq> - 1" using b by simp
  then show ?thesis
    by (subst ParseNTPIFile_loop.simps)
       (simp add: extractRegion_metadata [OF t b d h s] WriteFile_def w Let_def)
qed

text \<open>
  Claim C4 (envelope region walk).  After a header that parses, the walk starts at offset 48
  with the header's first region.  A region of type 6 that lies within the file is written
  as \<open>region6block.bin\<close> (the slice from the region's offset, of the region's size) and
  the walk stops.  Any other region that lies within the file, decrypts, and declares a
  real size within the decrypted buffer has its payload \<open>decrypted[40 .. 40 + real_size]\<close>
  written under the name of its type (extension \<open>.bin\<close> for type 4, \<open>.xml\<close>
  otherwise); the walk then continues with the next header at the offset plus the region
  size exactly when the next header's size is positive, and stops otherwise.  Offsets are
  computed without wrap-around for a file shorter than \<open>2 ^ 63\<close> bytes.
\<close>

theorem region_walk:
  "(ParseNTPIHeader fileData = Inr header \<and> \<not> mkdir_fails P fs0 outputDir \<longrightarrow>
      ParseNTPIFile P fileData outputDir fs0 =
        ParseNTPIFile_loop P fileData outputDir (snd (ParseNTPIFile_keyDict header)) 48
          (FirstRegion header) 0 (fs0\<lparr>dirs := insert outputDir (dirs fs0)\<rparr>))
   \<and> (RegionType region = 6 \<and> 0 \<le> offset
        \<and> offset + int (RegionSize region) \<le> int (length fileData)
        \<and> int (length fileData) < 2 ^ 63
        \<and> \<not> write_fails P fs (path_Join P outputDir ''region6block.bin'') \<longrightarrow>
      ParseNTPIFile_loop P fileData outputDir keyDict offset region n fs =
        Inr (n + 1, fs\<lparr>files := (files fs)(path_Join P outputDir ''region6block.bin''
                           \<mapsto> take (RegionSize region) (drop (nat offset) fileData))\<rparr>))
   \<and> (RegionType region \<noteq> 6 \<and> 0 \<le> offset
        \<and> offset + int (RegionSize region) \<le> int (length fileData)
        \<and> int (length fileData) < 2 ^ 63
        \<and> DecryptRegionData (aes_cbc P) (take (RegionSize region) (drop (nat offset) fileData))
              (RegionType region) keyDict = Inr decryptedData
        \<and> ParseRegionBlockHeader decryptedData = Inr blockHeader
        \<and> 40 + RealSize blockHeader \<le> length decryptedData
        \<and> \<not> write_fails P fs (path_Join P outputDir
              (RegionName (RegionType region) @ (if RegionType region = 4 then ''.bin'' else ''.xml''))) \<longrightarrow>
      ParseNTPIFile_loop P fileData outputDir keyDict offset region n fs =
        (let fs' = fs\<lparr>files := (files fs)(path_Join P outputDir
                      (RegionName (RegionType region)
                         @ (if RegionType region = 4 then ''.bin'' else ''.xml''))
                    \<mapsto> take (RealSize blockHeader) (drop 40 decryptedData))\<rparr>
         in if RegionSize (NextHeader blockHeader) > 0
            then ParseNTPIFile_loop P fileData outputDir keyDict (offset + int (RegionSize region))
                   (NextHeader blockHeader) (n + 1) fs'
            else Inr (n + 1, fs')))
   \<and> map RegionName [1, 2, 3, 4, 5] = [''Metadata'', ''Patch'', ''RawProgram'', ''KeyMap'', ''FileIndex'']"
proof (intro conjI impI)
  assume "ParseNTPIHeader fileData = Inr header \<and> \<not> mkdir_fails P fs0 outputDir"
  then show "ParseNTPIFile P fileData outputDir fs0 =
        ParseNTPIFile_loop P fileData outputDir (snd (ParseNTPIFile_keyDict header)) 48
          (FirstRegion header) 0 (fs0\<lparr>dirs := insert outputDir (dirs fs0)\<rparr>)"
    by (simp add: ParseNTPIFile_def MkdirAll_def Let_def)
next
  assume "RegionType region = 6 \<and> 0 \<le> offset
        \<and> offset + int (RegionSize region) \<le> int (length fileData)
        \<and> int (length fileData) < 2 ^ 63
        \<and> \<not> write_fails P fs (path_Join P outputDir ''region6block.bin'')"
  then show "ParseNTPIFile_loop P fileData outputDir keyDict offset region n fs =
        Inr (n + 1, fs\<lparr>files := (files fs)(path_Join P outputDir ''region6block.bin''
                           \<mapsto> take (RegionSize region) (drop (nat offset) fileData))\<rparr>)"
    by (intro ParseNTPIFile_loop_type6) auto
next
  assume a: "RegionType region \<noteq> 6 \<and> 0 \<le> offset
        \<and> offset + int (RegionSize region) \<le> int (length fileData)
        \<and> int (length fileData) < 2 ^ 63
        \<and> DecryptRegionData (aes_cbc P) (take (RegionSize region) (drop (nat offset) fileData))
              (RegionType region) keyDict = Inr decryptedData
        \<and> ParseRegionBlockHeader decryptedData = Inr blockHeader
        \<and> 40 + RealSize blockHeader \<le> length decryptedData
        \<and> \<not> write_fails P fs (path_Join P outputDir
              (RegionName (RegionType region) @ (if RegionType region = 4 then ''.bin'' else ''.xml'')))"
  show "ParseNTPIFile_loop P fileData outputDir keyDict offset region n fs =
        (let fs' = fs\<lparr>files := (files fs)(path_Join P outputDir
                      (RegionName (RegionType region)
                         @ (if RegionType region = 4 then ''.bin'' else ''.xml''))
                    \<mapsto> take (RealSize blockHeader) (drop 40 decryptedData))\<rparr>
         in if RegionSize (NextHeader blockHeader) > 0
            then ParseNTPIFile_loop P fileData outputDir keyDict (offset + int (RegionSize region))
                   (NextHeader blockHeader) (n + 1) fs'
            else Inr (n + 1, fs'))"
    by (rule ParseNTPIFile_loop_metadata) (use a in blast)+
next
  show "map RegionName [1, 2, 3, 4, 5] = [''Metadata'', ''Patch'', ''RawProgram'', ''KeyMap'', ''FileIndex'']"
    by (simp add: RegionName_def)
qed


lemma ex_block_header:
  "ParseRegionBlockHeader (le64 1 @ le64 48 @ le64 6 @ le64 4 @ le64 3 @ [0x3C, 0x61, 0x3E]) =
     Inr \<lparr>ThisHeader = \<lparr>RegionType = 1, RegionSize = 48\<rparr>,
          NextHeader = \<lparr>RegionType = 6, RegionSize = 4\<rparr>, RealSize = 3\<rparr>"
  by (simp add: stage1_eval)

theorem region_walk_witness:
  "ParseNTPIHeader example_archive =
     Inr \<lparr>NTPIHeader.Magic = magic_NTPI, NTPIHeader.Padding = 0, VersionMajor = 1,
          VersionMinor = 3, VersionPatch = 0,
          FirstRegion = \<lparr>RegionType = 1, RegionSize = 48\<rparr>\<rparr>
   \<and> \<not> mkdir_fails example_platform empty_fs ''.temp''
   \<and> DecryptRegionData (aes_cbc example_platform) (take 48 (drop (nat 48) example_archive)) 1
         AESDict_V1_3_0 = Inr (le64 1 @ le64 48 @ le64 6 @ le64 4 @ le64 3 @ [0x3C, 0x61, 0x3E])
   \<and> (96::int) + int 4 \<le> int (length example_archive)
   \<and> ParseNTPIFile example_platform example_archive ''.temp'' empty_fs =
       Inr (2, \<lparr>dirs = {''.temp''},
                 files = [''.temp/Metadata.xml'' \<mapsto> [0x3C, 0x61, 0x3E],
                          ''.temp/region6block.bin'' \<mapsto> [1, 2, 3, 4]]\<rparr>)"
proof -
  let ?hdr = "\<lparr>NTPIHeader.Magic = magic_NTPI, NTPIHeader.Padding = 0, VersionMajor = 1,
          VersionMinor = 3, VersionPatch = 0,
          FirstRegion = \<lparr>RegionType = 1, RegionSize = 48\<rparr>\<rparr>"
  let ?dec = "le64 1 @ le64 48 @ le64 6 @ le64 4 @ le64 3 @ [0x3C, 0x61, 0x3E :: byte]"
  let ?bh = "\<lparr>ThisHeader = \<lparr>RegionType = 1, RegionSize = 48\<rparr>,
          NextHeader = \<lparr>RegionType = 6, RegionSize = 4\<rparr>, RealSize = 3\<rparr>"
  let ?fs1 = "empty_fs\<lparr>dirs := insert ''.temp'' (dirs empty_fs)\<rparr>"
  let ?fs2 = "?fs1\<lparr>files := (files ?fs1)(''.temp/Metadata.xml'' \<mapsto> [0x3C, 0x61, 0x3E])\<rparr>"
  have len: "length example_archive = 100" by (simp add: example_archive_def le64_def magic_NTPI_def)
  have h1: "ParseNTPIHeader example_archive = Inr ?hdr" by (rule ex_header)
  have m: "\<not> mkdir_fails example_platform empty_fs ''.temp''" by (simp add: example_platform_def)
  have d: "DecryptRegionData (aes_cbc example_platform) (take 48 (drop (nat 48) example_archive)) 1
         AESDict_V1_3_0 = Inr ?dec" using ex_region1 by simp
  have j1: "path_Join example_platform ''.temp'' ''Metadata.xml'' = ''.temp/Metadata.xml''"
    by (simp add: example_platform_def unix_Join_def unix_Clean_def clean_step_def)
  have j2: "path_Join example_platform ''.temp'' ''region6block.bin'' = ''.temp/region6block.bin''"
    by (simp add: example_platform_def unix_Join_def unix_Clean_def clean_step_def)
  have w: "\<not> write_fails example_platform fs p" for fs p by (simp add: example_platform_def)
  note W = region_walk [where P = example_platform and fileData = example_archive
                           and outputDir = "''.temp''" and keyDict = AESDict_V1_3_0]
  from W [where header = ?hdr and ?fs0.0 = empty_fs, THEN conjunct1] h1 m
  have s1: "ParseNTPIFile example_platform example_archive ''.temp'' empty_fs =
              ParseNTPIFile_loop example_platform example_archive ''.temp'' AESDict_V1_3_0 48
                \<lparr>RegionType = 1, RegionSize = 48\<rparr> 0 ?fs1"
    by (simp add: ParseNTPIFile_keyDict_never_warns)
  from W [where region = "\<lparr>RegionType = 1, RegionSize = 48\<rparr>" and offset = 48
            and decryptedData = ?dec and blockHeader = ?bh and fs = ?fs1 and n = 0,
          THEN conjunct2, THEN conjunct2, THEN conjunct1] d ex_block_header w len
  have s2: "ParseNTPIFile_loop example_platform example_archive ''.temp'' AESDict_V1_3_0 48
                \<lparr>RegionType = 1, RegionSize = 48\<rparr> 0 ?fs1 =
            ParseNTPIFile_loop example_platform example_archive ''.temp'' AESDict_V1_3_0 96
                \<lparr>RegionType = 6, RegionSize = 4\<rparr> 1 ?fs2"
    by (simp add: le64_def RegionName_def j1)
  from W [where region = "\<lparr>RegionType = 6, RegionSize = 4\<rparr>" and offset = 96
            and fs = ?fs2 and n = 1, THEN conjunct2, THEN conjunct1] w len
  have s3: "ParseNTPIFile_loop example_platform example_archive ''.temp'' AESDict_V1_3_0 96
                \<lparr>RegionType = 6, RegionSize = 4\<rparr> 1 ?fs2 =
            Inr (2, \<lparr>dirs = {''.temp''},
                 files = [''.temp/Metadata.xml'' \<mapsto> [0x3C, 0x61, 0x3E],
                          ''.temp/region6block.bin'' \<mapsto> [1, 2, 3, 4]]\<rparr>)"
    by (simp add: j2 empty_fs_def example_archive_def le64_def magic_NTPI_def)
  show ?thesis using h1 m d len s1 s2 s3 by simp
qed

section \<open>Stage 2: the segmenter against the sequential loop\<close>

lemma go_int_add_left: "go_int (go_int a + b) = go_int (a + b)"
proof -
  obtain k where k: "go_int a = a + k * 2 ^ 64" using go_int_wrap by blast
  have e1: "go_int (go_int a + b) = (go_int a + b + 2 ^ 63) mod 2 ^ 64 - 2 ^ 63"
    by (rule go_int_alt)
  have "go_int a + b + 2 ^ 63 = a + b + 2 ^ 63 + k * 2 ^ 64" unfolding k by simp
  then have "(go_int a + b + 2 ^ 63) mod 2 ^ 64 = (a + b + 2 ^ 63 + k * 2 ^ 64) mod 2 ^ 64"
    by (rule arg_cong)
  also have "\<dots> = (a + b + 2 ^ 63) mod 2 ^ 64" by (rule mod_mult_self1)
  finally have e3: "(go_int a + b + 2 ^ 63) mod 2 ^ 64 = (a + b + 2 ^ 63) mod 2 ^ 64" .
  show ?thesis unfolding e1 e3 go_int_alt [of "a + b"] ..
qed

lemma chain_bounds:
  "chain P task cur k bs fin \<Longrightarrow> bs \<noteq> [] \<Longrightarrow>
     0 \<le> cur \<and> cur + 112 * int (length bs) \<le> fin \<and> fin \<le> int (length (Region6Data task))"
proof (induction bs arbitrary: cur k)
  case Nil
  then show ?case by simp
next
  case (Cons b bs)
  from Cons.prems(1) obtain key nxt pt where
    d: "DecryptNTEncodeBlock (aes_cbc P) (Region6Data task) cur key = Inr (nxt, pt)"
    and c: "chain P task nxt (k + 1) bs fin" by auto
  from DecryptNTEncodeBlock_advance [OF d]
  have a: "0 \<le> cur" "cur + 112 \<le> nxt" "nxt \<le> int (length (Region6Data task))" by auto
  show ?case
  proof (cases "bs = []")
    case True
    with c a show ?thesis by simp
  next
    case False
    from Cons.IH [OF c False] a show ?thesis by simp
  qed
qed

lemma chain_offsets:
  "chain P task cur k bs fin \<Longrightarrow> b \<in> set bs \<Longrightarrow> cur \<le> fst b \<and> fst b < fin"
proof (induction bs arbitrary: cur k)
  case Nil
  then show ?case by simp
next
  case (Cons a bs)
  from Cons.prems(1) obtain key nxt pt where
    d: "DecryptNTEncodeBlock (aes_cbc P) (Region6Data task) cur key = Inr (nxt, pt)"
    and c: "chain P task nxt (k + 1) bs fin" and f: "fst a = cur" by auto
  from DecryptNTEncodeBlock_advance [OF d] have adv: "cur + 112 \<le> nxt" by auto
  have le: "nxt \<le> fin"
  proof (cases "bs = []")
    case True with c show ?thesis by simp
  next
    case False from chain_bounds [OF c False] show ?thesis by simp
  qed
  show ?case
  proof (cases "b = a")
    case True
    with f adv le show ?thesis by simp
  next
    case False
    with Cons.prems(2) have "b \<in> set bs" by simp
    from Cons.IH [OF c this] adv show ?thesis by simp
  qed
qed

lemma chain_append:
  "chain P task cur k (xs @ ys) fin \<longleftrightarrow>
     (\<exists>mid. chain P task cur k xs mid \<and> chain P task mid (k + int (length xs)) ys fin)"
proof (induction xs arbitrary: cur k)
  case Nil
  then show ?case by simp
next
  case (Cons x xs)
  have e: "k + 1 + int (length xs) = k + int (length (x # xs))" by simp
  show ?case
    unfolding append_Cons chain.simps Cons.IH e by blast
qed

lemma chain_hd:
  "chain P task cur k bs fin \<Longrightarrow> bs \<noteq> [] \<Longrightarrow> fst (hd bs) = cur"
  by (cases bs) auto

lemma seq_loop_chain:
  assumes "processFileSequential_loop P task E cur k acc = Inr data"
    and "0 \<le> k" and "k = 0 \<or> 112 * k \<le> cur"
    and "int (length (Region6Data task)) < 2 ^ 63"
  shows "\<exists>bs fin. chain P task cur k bs fin \<and> (\<forall>b \<in> set bs. fst b < E) \<and> \<not> fin < E
           \<and> data = acc @ concat (map (\<lambda>b. snd (snd b)) bs)"
  using assms
proof (induction P task E cur k acc arbitrary: data rule: processFileSequential_loop.induct)
  case (1 P task E cur k acc)
  show ?case
  proof (cases "cur < E")
    case False
    with "1.prems"(1) have "data = acc"
      by (subst (asm) processFileSequential_loop.simps) simp
    with False show ?thesis
      by (intro exI [of _ "[]"] exI [of _ cur]) simp
  next
    case True
    from "1.prems"(1) True obtain key nxt pt d where
      ek: "ExtractKeyFromKeyMap (KeyMapData task) (KeyMapSpare task)
             (go_int (KeyIndex (FileInfo task) + k)) = Inr key"
      and dk: "DecryptNTEncodeBlock (aes_cbc P) (Region6Data task) cur key = Inr (nxt, pt)"
      and dc: "decompressLZMA2 (lzma2_decode P) pt = Inr d"
      and rec: "processFileSequential_loop P task E nxt (go_int (k + 1)) (acc @ d) = Inr data"
      by (subst (asm) processFileSequential_loop.simps) (auto simp: Let_def split: sum.splits)
    from DecryptNTEncodeBlock_advance [OF dk] obtain hdr where
      hdr: "ParseNTEncodeHeader (take 112 (drop (nat cur) (Region6Data task))) = Inr hdr"
      and adv: "nxt = cur + 112 + int (NTEncodeHeader.OriginalSize hdr)" "0 \<le> cur"
               "nxt \<le> int (length (Region6Data task))" by blast
    have kk: "112 * k \<le> cur" using "1.prems"(3) adv(2) by auto
    have k1: "112 * (k + 1) \<le> nxt" using kk adv(1) by simp
    then have "k + 1 < 2 ^ 63" using adv(3) "1.prems"(4) by simp
    then have g: "go_int (k + 1) = k + 1" using "1.prems"(2) by (intro go_int_id) auto
    have "\<exists>bs fin. chain P task nxt (k + 1) bs fin \<and> (\<forall>b \<in> set bs. fst b < E) \<and> \<not> fin < E
           \<and> data = (acc @ d) @ concat (map (\<lambda>b. snd (snd b)) bs)"
      using "1.IH" [OF True refl ek dk refl dc, of data] rec "1.prems"(2,4) k1
      unfolding g by simp
    then obtain bs fin where
      c: "chain P task nxt (k + 1) bs fin" and lt: "\<forall>b \<in> set bs. fst b < E" and fin: "\<not> fin < E"
      and dat: "data = (acc @ d) @ concat (map (\<lambda>b. snd (snd b)) bs)" by blast
    let ?b = "(cur, NTEncodeHeader.ProcessedSize hdr, d)"
    have "chain P task cur k (?b # bs) fin"
      using ek dk dc hdr c by auto
    moreover have "\<forall>b \<in> set (?b # bs). fst b < E" using lt True by simp
    moreover have "data = acc @ concat (map (\<lambda>b. snd (snd b)) (?b # bs))" using dat by simp
    ultimately show ?thesis using fin by blast
  qed
qed

lemma length_mk_boundaries [simp]: "length (mk_boundaries k a bs) = length bs"
  by (induction bs arbitrary: k a) auto

lemma nth_mk_boundaries:
  "j < length bs \<Longrightarrow>
     Offset (mk_boundaries k a bs ! j) = fst (bs ! j)
   \<and> BlockIndex (mk_boundaries k a bs ! j) = k + int j"
proof (induction bs arbitrary: k a j)
  case Nil
  then show ?case by simp
next
  case (Cons b bs)
  show ?case
  proof (cases j)
    case 0
    then show ?thesis by simp
  next
    case (Suc i)
    with Cons.prems have "i < length bs" by simp
    from Cons.IH [OF this, of "k + 1"] Suc show ?thesis by simp
  qed
qed

lemma scan_step:
  assumes d: "DecryptNTEncodeBlock cbc r6 cur key = Inr (nxt, pt)"
    and h: "ParseNTEncodeHeader (take 112 (drop (nat cur) r6)) = Inr hdr"
    and lt: "cur < E"
  shows "splitFileIntoSegments_scan r6 E cur k a bnds =
           splitFileIntoSegments_scan r6 E nxt (go_int (k + 1))
             (go_uint64 (int a + int (NTEncodeHeader.ProcessedSize hdr)))
             (bnds @ [\<lparr>Offset = cur, BlockIndex = k, AccumulatedSize = a\<rparr>])"
proof -
  from DecryptNTEncodeBlock_advance [OF d] h have
    adv: "nxt = cur + 112 + int (NTEncodeHeader.OriginalSize hdr)" "0 \<le> cur"
         "nxt \<le> int (length r6)" "nxt < 2 ^ 63" by auto
  define os where "os = int (NTEncodeHeader.OriginalSize hdr)"
  have os0: "0 \<le> os" by (simp add: os_def)
  have g1: "go_int (cur + 112) = cur + 112" using adv os0 unfolding os_def [symmetric]
    by (intro go_int_id) auto
  have g2: "go_int os = os" using adv os0 unfolding os_def [symmetric] by (intro go_int_id) auto
  have g3: "go_int (112 + os) = 112 + os" using adv os0 unfolding os_def [symmetric]
    by (intro go_int_id) auto
  have g4: "go_int (cur + (112 + os)) = nxt" using adv os0 unfolding os_def [symmetric]
    by (subst go_int_id) auto
  have sl: "go_slice r6 cur (cur + 112) = Inr (take 112 (drop (nat cur) r6))"
    using adv os0 unfolding os_def [symmetric] by (simp add: go_slice_def)
  have le: "\<not> cur + 112 > int (length r6)" using adv os0 unfolding os_def [symmetric] by simp
  show ?thesis
    by (subst splitFileIntoSegments_scan.simps)
       (simp add: lt g1 le sl h os_def [symmetric] g2 g3 g4)
qed

lemma scan_chain:
  assumes "chain P task cur k bs fin" and "\<forall>b \<in> set bs. fst b < E" and "\<not> fin < E"
    and "0 \<le> k" and "k + int (length bs) < 2 ^ 63"
  shows "splitFileIntoSegments_scan (Region6Data task) E cur k a bnds =
           Some (Inr (bnds @ mk_boundaries k a bs, total_size a bs))"
  using assms
proof (induction bs arbitrary: cur k a bnds)
  case Nil
  then show ?case by (subst splitFileIntoSegments_scan.simps) simp
next
  case (Cons b bs)
  from Cons.prems(1) obtain key nxt pt hdr where
    f: "fst b = cur"
    and dk: "DecryptNTEncodeBlock (aes_cbc P) (Region6Data task) cur key = Inr (nxt, pt)"
    and hdr: "ParseNTEncodeHeader (take 112 (drop (nat cur) (Region6Data task))) = Inr hdr"
    and sz: "fst (snd b) = NTEncodeHeader.ProcessedSize hdr"
    and c: "chain P task nxt (k + 1) bs fin" by auto
  have lt: "cur < E" using Cons.prems(2) f by simp
  have g: "go_int (k + 1) = k + 1" using Cons.prems(4,5) by (intro go_int_id) auto
  have "splitFileIntoSegments_scan (Region6Data task) E nxt (k + 1)
          (go_uint64 (int a + int (NTEncodeHeader.ProcessedSize hdr)))
          (bnds @ [\<lparr>Offset = cur, BlockIndex = k, AccumulatedSize = a\<rparr>]) =
        Some (Inr ((bnds @ [\<lparr>Offset = cur, BlockIndex = k, AccumulatedSize = a\<rparr>])
                     @ mk_boundaries (k + 1) (go_uint64 (int a + int (NTEncodeHeader.ProcessedSize hdr))) bs,
                   total_size (go_uint64 (int a + int (NTEncodeHeader.ProcessedSize hdr))) bs))"
    using Cons.prems(2-5) by (intro Cons.IH [OF c]) auto
  then show ?case
    unfolding scan_step [OF dk hdr lt] g by (simp add: f sz)
qed

lemma partition_covers:
  assumes "segStart \<le> i" and "i \<le> length bnds" and "i = length bnds \<longrightarrow> segStart = length bnds"
  shows "\<exists>segs'. splitFileIntoSegments_partition bnds E S T i segStart cs segs = Inr (segs @ segs')
            \<and> covers bnds E segStart segs'"
  using assms
proof (induction bnds E S T i segStart cs segs rule: splitFileIntoSegments_partition.induct)
  case (1 bnds E S T i segStart cs segs)
  let ?B = "length bnds"
  show ?case
  proof (cases "i < ?B")
    case False
    with "1.prems" have "i = ?B" "segStart = ?B" by auto
    then show ?thesis
      by (subst splitFileIntoSegments_partition.simps) (simp add: Let_def)
  next
    case True
    with "1.prems" have ss: "segStart < ?B" by simp
    define css where "css = (if segStart < length bnds
                             then go_uint64 (int (AccumulatedSize (bnds ! i))
                                              - int (AccumulatedSize (bnds ! segStart)))
                             else cs)"
    define she where "she = (int (length segs) < go_int (S - 1) \<and> css \<ge> T)"
    show ?thesis
    proof (cases "she \<or> i = ?B - 1")
      case emit: True
      define seg where "seg = \<lparr>StartOffset = Offset (bnds ! segStart),
          EndOffset = (if i = ?B - 1 then E else if i + 1 < ?B then Offset (bnds ! (i + 1)) else E),
          StartBlockIndex = BlockIndex (bnds ! segStart),
          NumBlocks = (if i = ?B - 1 then int ?B - int segStart else int i - int segStart + 1)\<rparr>"
      have unfold: "splitFileIntoSegments_partition bnds E S T i segStart cs segs =
                    splitFileIntoSegments_partition bnds E S T (i + 1) (i + 1) 0 (segs @ [seg])"
        using True ss emit
        by (subst splitFileIntoSegments_partition.simps)
           (simp add: Let_def css_def she_def seg_def)
      have "\<exists>segs'. splitFileIntoSegments_partition bnds E S T (i + 1) (i + 1) 0 (segs @ [seg])
                 = Inr ((segs @ [seg]) @ segs') \<and> covers bnds E (i + 1) segs'"
        unfolding seg_def
        apply (rule "1.IH"(1) [OF refl True refl refl _ ss refl refl refl refl])
        using emit True by (auto simp: she_def css_def ss)
      then obtain segs' where
        r: "splitFileIntoSegments_partition bnds E S T (i + 1) (i + 1) 0 (segs @ [seg])
              = Inr ((segs @ [seg]) @ segs')"
        and c: "covers bnds E (i + 1) segs'" by blast
      have n: "segStart + (i + 1 - segStart) = i + 1" using "1.prems"(1) by simp
      have endo: "EndOffset seg = (if i + 1 = length bnds then E else Offset (bnds ! (i + 1)))"
        using True by (auto simp: seg_def)
      have nb: "NumBlocks seg = int (i + 1 - segStart)"
        using True "1.prems"(1) by (auto simp: seg_def)
      have so: "StartOffset seg = Offset (bnds ! segStart)"
        and sb: "StartBlockIndex seg = BlockIndex (bnds ! segStart)" by (simp_all add: seg_def)
      have pos: "0 < i + 1 - segStart" "i + 1 \<le> length bnds" using True "1.prems"(1) by auto
      have "covers bnds E segStart (seg # segs')"
        unfolding covers.simps
        by (rule exI [of _ "i + 1 - segStart"]) (simp only: n endo nb so sb c pos simp_thms)
      with r unfold show ?thesis by (intro exI [of _ "seg # segs'"]) simp
    next
      case noemit: False
      have unfold: "splitFileIntoSegments_partition bnds E S T i segStart cs segs =
                    splitFileIntoSegments_partition bnds E S T (i + 1) segStart css segs"
        using True ss noemit
        by (subst splitFileIntoSegments_partition.simps)
           (auto simp: Let_def css_def she_def)
      have "\<exists>segs'. splitFileIntoSegments_partition bnds E S T (i + 1) segStart css segs
                 = Inr (segs @ segs') \<and> covers bnds E segStart segs'"
        unfolding css_def
        apply (rule "1.IH"(2) [OF refl True refl refl])
        using noemit True "1.prems" by (auto simp: she_def css_def ss)
      with unfold show ?thesis by simp
    qed
  qed
qed

lemma seg_loop_chain:
  assumes "chain P task cur (sbi + c) bs fin"
    and "\<forall>b \<in> set bs. fst b < EndOffset seg"
    and "NumBlocks seg = c + int (length bs)"
    and "StartBlockIndex seg = sbi"
    and "0 \<le> c" and "c + int (length bs) < 2 ^ 63"
  shows "processSegment_loop P task seg cur c acc = Inr (acc @ concat (map (\<lambda>b. snd (snd b)) bs))"
  using assms
proof (induction bs arbitrary: cur c acc)
  case Nil
  then show ?case by (subst processSegment_loop.simps) simp
next
  case (Cons b bs)
  from Cons.prems(1) obtain key nxt pt where
    f: "fst b = cur"
    and ek: "ExtractKeyFromKeyMap (KeyMapData task) (KeyMapSpare task)
               (go_int (KeyIndex (FileInfo task) + (sbi + c))) = Inr key"
    and dk: "DecryptNTEncodeBlock (aes_cbc P) (Region6Data task) cur key = Inr (nxt, pt)"
    and dc: "decompressLZMA2 (lzma2_decode P) pt = Inr (snd (snd b))"
    and c: "chain P task nxt (sbi + c + 1) bs fin" by auto
  have cond: "cur < EndOffset seg \<and> c < NumBlocks seg" using Cons.prems(2,3) f by simp
  have ki: "go_int (go_int (KeyIndex (FileInfo task) + StartBlockIndex seg) + c)
              = go_int (KeyIndex (FileInfo task) + (sbi + c))"
    unfolding go_int_add_left Cons.prems(4) by (simp add: add.assoc)
  have g: "go_int (c + 1) = c + 1" using Cons.prems(5,6) by (intro go_int_id) auto
  have c': "chain P task nxt (sbi + (c + 1)) bs fin" using c by (simp add: add.assoc)
  have "processSegment_loop P task seg nxt (c + 1) (acc @ snd (snd b))
          = Inr ((acc @ snd (snd b)) @ concat (map (\<lambda>b. snd (snd b)) bs))"
    using Cons.prems(2-6) by (intro Cons.IH [OF c']) auto
  then show ?case
    by (subst processSegment_loop.simps) (simp add: cond ki ek dk dc g Let_def)
qed

lemma processSegments_Nil: "processSegments P task [] = Inr []"
  by (simp add: processSegments_def)

lemma processSegments_Cons:
  assumes "processSegment P task seg = Inr d" and "processSegments P task rest = Inr ds"
  shows "processSegments P task (seg # rest) = Inr (d @ ds)"
  using assms
  by (auto simp: processSegments_def Let_def segment_slot_def split: if_splits)

lemma covers_process:
  assumes "covers (mk_boundaries 0 0 bs) E s segs"
    and "chain P task cur (int s) (drop s bs) fin"
    and "\<forall>b \<in> set bs. fst b < E"
    and "int (length bs) < 2 ^ 63"
  shows "processSegments P task segs = Inr (concat (map (\<lambda>b. snd (snd b)) (drop s bs)))"
  using assms
proof (induction segs arbitrary: s cur)
  case Nil
  then show ?case by (simp add: processSegments_Nil)
next
  case (Cons seg rest)
  let ?bnds = "mk_boundaries 0 0 bs"
  from Cons.prems(1) obtain n where
    n: "0 < n" "s + n \<le> length bs"
    and so: "StartOffset seg = Offset (?bnds ! s)"
    and sb: "StartBlockIndex seg = BlockIndex (?bnds ! s)"
    and nb: "NumBlocks seg = int n"
    and eo: "EndOffset seg = (if s + n = length bs then E else Offset (?bnds ! (s + n)))"
    and cv: "covers ?bnds E (s + n) rest" by auto
  have s_lt: "s < length bs" using n by simp
  define xs where "xs = take n (drop s bs)"
  define ys where "ys = drop (s + n) bs"
  have split: "drop s bs = xs @ ys"
    unfolding xs_def ys_def by (metis add.commute append_take_drop_id drop_drop)
  have lx: "length xs = n" unfolding xs_def using n by simp
  from Cons.prems(2) obtain mid where
    c1: "chain P task cur (int s) xs mid" and c2: "chain P task mid (int s + int (length xs)) ys fin"
    unfolding split chain_append by blast
  have xs_ne: "xs \<noteq> []" using lx n by auto
  have "fst (hd (drop s bs)) = cur" using Cons.prems(2) s_lt by (intro chain_hd) auto
  then have cur: "cur = fst (bs ! s)" using s_lt by (simp add: hd_drop_conv_nth)
  have so': "StartOffset seg = cur" unfolding so cur using nth_mk_boundaries [OF s_lt] by simp
  have sb': "StartBlockIndex seg = int s" unfolding sb using nth_mk_boundaries [OF s_lt, of 0 0] by simp
  have lt_end: "\<forall>b \<in> set xs. fst b < EndOffset seg"
  proof (cases "s + n = length bs")
    case True
    have "set xs \<subseteq> set bs" unfolding xs_def by (meson set_drop_subset set_take_subset subset_trans)
    then show ?thesis using Cons.prems(3) eo True by auto
  next
    case False
    with n have lt: "s + n < length bs" by simp
    then have ys_ne: "ys \<noteq> []" unfolding ys_def by simp
    have "fst (hd ys) = mid" using c2 ys_ne by (rule chain_hd)
    then have "mid = fst (bs ! (s + n))" unfolding ys_def using lt by (simp add: hd_drop_conv_nth)
    then have "EndOffset seg = mid" using eo False nth_mk_boundaries [OF lt, of 0 0] by simp
    then show ?thesis using chain_offsets [OF c1] by auto
  qed
  have "processSegment_loop P task seg cur 0 [] = Inr ([] @ concat (map (\<lambda>b. snd (snd b)) xs))"
    using c1 lt_end nb sb' lx n Cons.prems(4)
    by (intro seg_loop_chain [where sbi = "int s" and fin = mid]) auto
  then have p1: "processSegment P task seg = Inr (concat (map (\<lambda>b. snd (snd b)) xs))"
    by (simp add: processSegment_def so')
  have c2': "chain P task mid (int (s + n)) (drop (s + n) bs) fin"
    using c2 lx by (simp add: ys_def)
  have p2: "processSegments P task rest = Inr (concat (map (\<lambda>b. snd (snd b)) ys))"
    unfolding ys_def by (rule Cons.IH [OF cv c2' Cons.prems(3,4)])
  show ?case using processSegments_Cons [OF p1 p2] by (simp add: split)
qed

lemmas example_eval =
  example_task_def ExtractFiles_task_def example_file_def calculateOptimalSegments_def
  three_blocks_def torn_blocks_def example_block_def example_platform_def
  ExtractKeyFromKeyMap_def block_eval decompressLZMA2_def ParseNTDecompressHeader_def
  lzma2_stored.simps wrap_def nth_append zero_magic_def

lemma ex_seq3:
  "processFileSequential_loop example_platform
     (example_task (example_file name hash pl 720) three_blocks) 720 0 0 []
     = Inr [7, 8, 9, 4, 5, 6, 1, 2, 3]"
  by (simp add: processFileSequential_loop.simps example_eval)

lemma ex_split3:
  "splitFileIntoSegments (example_task (example_file name hash pl 720) three_blocks) 4
     = Some (Inr [\<lparr>StartOffset = 0, EndOffset = 480, StartBlockIndex = 0, NumBlocks = 2\<rparr>,
                  \<lparr>StartOffset = 480, EndOffset = 720, StartBlockIndex = 2, NumBlocks = 1\<rparr>])"
  by (simp add: splitFileIntoSegments_def splitFileIntoSegments_scan.simps
        splitFileIntoSegments_partition.simps go_uint64_def example_eval)

lemma ex_torn_seq:
  "processFileSequential_loop example_platform (example_task (example_file ''abl'' [] 6 352) torn_blocks)
     352 0 0 [] = Inl (DecryptionFailedAtBlock 1 (ParseHeaderFailed (InvalidMagic zero_magic)))"
  by (simp add: processFileSequential_loop.simps example_eval)

lemma ex_torn_split:
  "splitFileIntoSegments (example_task (example_file ''abl'' [] 6 352) torn_blocks) 4
     = Some (Inr [\<lparr>StartOffset = 0, EndOffset = 352, StartBlockIndex = 0, NumBlocks = 1\<rparr>])"
  by (simp add: splitFileIntoSegments_def splitFileIntoSegments_scan.simps
        splitFileIntoSegments_partition.simps go_uint64_def example_eval)

lemma ex_torn_seg:
  "processSegments example_platform (example_task (example_file ''abl'' [] 6 352) torn_blocks)
     [\<lparr>StartOffset = 0, EndOffset = 352, StartBlockIndex = 0, NumBlocks = 1\<rparr>] = Inr [7, 8, 9]"
  by (simp add: processSegments_def processSegment_def processSegment_loop.simps segment_slot_def example_eval)

lemma ex_empty:
  "processFileSequential_loop example_platform (example_task (example_file ''abl'' [] 0 0) []) 0 0 0 [] = Inr []
   \<and> splitFileIntoSegments (example_task (example_file ''abl'' [] 0 0) []) 4 = Some (Inl NoValidBlocks)"
  by (simp add: processFileSequential_loop.simps splitFileIntoSegments_def splitFileIntoSegments_scan.simps
       example_eval)

text \<open>
  Claim C1 (segmenter equivalence), amended.  For every file entry that has at least one
  block (its start offset is below its end offset), every segment count \<open>S\<close> with
  \<open>1 \<le> S\<close> and every bulk region shorter than \<open>2 ^ 63\<close> bytes: whenever the
  sequential per-block loop over the entry succeeds with the bytes \<open>data\<close>, the boundary
  scan returns, the partition yields a list of segments, and processing the segments (block
  \<open>j\<close> of a segment under the key index \<open>KeyIndex + StartBlockIndex + j\<close>) and
  concatenating their outputs in the order of the segments yields exactly \<open>data\<close>.
\<close>

theorem segmenter_equivalence:
  assumes st: "offsetStart = go_int (int (FileInfo.Offset (FileInfo task)))"
    and en: "offsetEnd = go_int (offsetStart + go_int (int (Length (FileInfo task))))"
    and ne: "offsetStart < offsetEnd"
    and S: "1 \<le> S" "S < 2 ^ 63"
    and len: "int (length (Region6Data task)) < 2 ^ 63"
    and seq: "processFileSequential_loop P task offsetEnd offsetStart 0 [] = Inr data"
  shows "\<exists>segments. splitFileIntoSegments task S = Some (Inr segments)
           \<and> processSegments P task segments = Inr data"
proof -
  from seq_loop_chain [OF seq _ _ len] obtain bs fin where
    c: "chain P task offsetStart 0 bs fin"
    and lt: "\<forall>b \<in> set bs. fst b < offsetEnd"
    and fin: "\<not> fin < offsetEnd"
    and dat: "data = concat (map (\<lambda>b. snd (snd b)) bs)" by auto
  have bs_ne: "bs \<noteq> []"
  proof
    assume "bs = []"
    with c have "fin = offsetStart" by simp
    with fin ne show False by simp
  qed
  from chain_bounds [OF c bs_ne] len have lb: "int (length bs) < 2 ^ 63" by simp
  let ?bnds = "mk_boundaries 0 0 bs"
  have scan: "splitFileIntoSegments_scan (Region6Data task) offsetEnd offsetStart 0 0 [] =
                Some (Inr ([] @ ?bnds, total_size 0 bs))"
    using lt fin lb by (intro scan_chain [OF c]) auto
  have d: "go_uint64 S \<noteq> 0"
    using S by (simp add: go_uint64_def take_bit_int_eq_self)
  from partition_covers [of 0 0 ?bnds offsetEnd S "total_size 0 bs div go_uint64 S" 0 "[]"] bs_ne
  obtain segs where
    p: "splitFileIntoSegments_partition ?bnds offsetEnd S (total_size 0 bs div go_uint64 S) 0 0 0 []
          = Inr segs"
    and cv: "covers ?bnds offsetEnd 0 segs" by auto
  have bn_ne: "length ?bnds \<noteq> 0" using bs_ne by simp
  have split: "splitFileIntoSegments task S = Some (Inr segs)"
    using bn_ne d p
    by (simp add: splitFileIntoSegments_def Let_def st [symmetric] en [symmetric] scan
             del: length_mk_boundaries)
  have "processSegments P task segs = Inr (concat (map (\<lambda>b. snd (snd b)) (drop 0 bs)))"
    using c lt lb by (intro covers_process [OF cv, where cur = offsetStart and fin = fin]) auto
  with dat split show ?thesis by simp
qed

theorem segmenter_equivalence_witness:
  "(0::int) = go_int (int (FileInfo.Offset (FileInfo (example_task (example_file ''abl'' [] 9 720) three_blocks))))
   \<and> (720::int) = go_int (0 + go_int (int (Length (FileInfo (example_task (example_file ''abl'' [] 9 720) three_blocks)))))
   \<and> (0::int) < 720 \<and> (1::int) \<le> 4 \<and> (4::int) < 2 ^ 63
   \<and> int (length (Region6Data (example_task (example_file ''abl'' [] 9 720) three_blocks))) < 2 ^ 63
   \<and> processFileSequential_loop example_platform
        (example_task (example_file ''abl'' [] 9 720) three_blocks) 720 0 0 []
        = Inr [7, 8, 9, 4, 5, 6, 1, 2, 3]
   \<and> processSegments example_platform (example_task (example_file ''abl'' [] 9 720) three_blocks)
        [\<lparr>StartOffset = 0, EndOffset = 480, StartBlockIndex = 0, NumBlocks = 2\<rparr>,
         \<lparr>StartOffset = 480, EndOffset = 720, StartBlockIndex = 2, NumBlocks = 1\<rparr>]
        = Inr [7, 8, 9, 4, 5, 6, 1, 2, 3]"
proof -
  let ?t = "example_task (example_file ''abl'' [] 9 720) three_blocks"
  have h1: "(0::int) = go_int (int (FileInfo.Offset (FileInfo ?t)))"
    by (simp add: example_task_def ExtractFiles_task_def example_file_def go_int_def Let_def)
  have h2: "(720::int) = go_int (0 + go_int (int (Length (FileInfo ?t))))"
    by (simp add: example_task_def ExtractFiles_task_def example_file_def go_int_def Let_def)
  have h3: "int (length (Region6Data ?t)) < 2 ^ 63"
    by (simp add: example_task_def ExtractFiles_task_def three_blocks_def example_block_def
          example_header_def le64_def magic_NTENCODE_def Let_def)
  from segmenter_equivalence [OF h1 h2 _ _ _ h3 ex_seq3, of 4]
  obtain segments where "splitFileIntoSegments ?t 4 = Some (Inr segments)"
    and p: "processSegments example_platform ?t segments = Inr [7, 8, 9, 4, 5, 6, 1, 2, 3]"
    by auto
  then have "segments = [\<lparr>StartOffset = 0, EndOffset = 480, StartBlockIndex = 0, NumBlocks = 2\<rparr>,
         \<lparr>StartOffset = 480, EndOffset = 720, StartBlockIndex = 2, NumBlocks = 1\<rparr>]"
    using ex_split3 by simp
  with p h1 h2 h3 ex_seq3 show ?thesis by simp
qed

theorem segmenter_equivalence_counterexample:
  "processFileSequential_loop example_platform (example_task (example_file ''abl'' [] 0 0) [])
       0 0 0 [] = Inr []
   \<and> splitFileIntoSegments (example_task (example_file ''abl'' [] 0 0) []) 4
       = Some (Inl NoValidBlocks)
   \<and> processFileSequential_loop example_platform
       (example_task (example_file ''abl'' [] 6 352) torn_blocks) 352 0 0 []
       = Inl (DecryptionFailedAtBlock 1 (ParseHeaderFailed (InvalidMagic zero_magic)))
   \<and> splitFileIntoSegments (example_task (example_file ''abl'' [] 6 352) torn_blocks) 4
       = Some (Inr [\<lparr>StartOffset = 0, EndOffset = 352, StartBlockIndex = 0, NumBlocks = 1\<rparr>])
   \<and> processSegments example_platform (example_task (example_file ''abl'' [] 6 352) torn_blocks)
       [\<lparr>StartOffset = 0, EndOffset = 352, StartBlockIndex = 0, NumBlocks = 1\<rparr>] = Inr [7, 8, 9]"
  using ex_empty ex_torn_seq ex_torn_split ex_torn_seg by simp

section \<open>Stage 2: the hash check and the output file\<close>












lemma processFileSequential_checked:
  assumes "\<not> mkdir_fails P fs (path_Dir P (path_Join P (OutputDir task) (Name (FileInfo task))))"
    and "processFileSequential_loop P task
           (go_int (go_int (int (FileInfo.Offset (FileInfo task))) + go_int (int (Length (FileInfo task)))))
           (go_int (int (FileInfo.Offset (FileInfo task)))) 0 [] = Inr finalData"
  shows "processFileSequential P task fs =
     (let outputPath = path_Join P (OutputDir task) (Name (FileInfo task));
          fs1 = fs\<lparr>dirs := insert (path_Dir P outputPath) (dirs fs)\<rparr>
      in if \<not> verifyHash (sha256_sum P) finalData (FileSha256Hash (FileInfo task))
         then Inr (failure (FileInfo task) HashVerificationFailed, fs1)
         else if write_fails P fs1 outputPath
         then Inr (failure (FileInfo task) WriteFileFailed, fs1)
         else Inr (\<lparr>FileName = Name (FileInfo task), Success = True, Message = OK\<rparr>,
                   fs1\<lparr>files := (files fs1)(outputPath \<mapsto> finalData)\<rparr>))"
  using assms by (simp add: processFileSequential_def Let_def MkdirAll_def WriteFile_def)




lemma ex_task_fields:
  "FileInfo (example_task file r6) = file"
  "OutputDir (example_task file r6) = ''out''"
  "Region6Data (example_task file r6) = r6"
  "NumSegments (example_task file r6) = calculateOptimalSegments (PartitionLength file)"
  "UseSegmented (example_task file r6) = (calculateOptimalSegments (PartitionLength file) > 1)"
  by (simp_all add: example_task_def ExtractFiles_task_def Let_def)

lemma ex_file_fields:
  "Name (example_file name hash pl len) = name"
  "FileSha256Hash (example_file name hash pl len) = hash"
  "PartitionLength (example_file name hash pl len) = pl"
  "FileInfo.Offset (example_file name hash pl len) = 0"
  "Length (example_file name hash pl len) = len"
  by (simp_all add: example_file_def)

lemma ex_platform_fields:
  "sha256_sum example_platform = Sum256"
  "path_Join example_platform = unix_Join"
  "path_Dir example_platform = unix_Dir"
  "mkdir_fails example_platform fs p = False"
  "write_fails example_platform fs p = False"
  by (simp_all add: example_platform_def)

lemmas ex_fields = ex_task_fields ex_file_fields ex_platform_fields



section \<open>SHA-256 of two messages\<close>


lemma hex_example:
  "hex_EncodeToString (Sum256 [7, 8, 9, 4, 5, 6, 1, 2, 3])
     = ''85ca7e3f1f4751ebcc12025083d428ec5abd05055313b7fc143439d2f31cf712''"
  by code_simp

section \<open>Names and lengths that are not checked\<close>


lemma verify_example:
  "verifyHash Sum256 [7, 8, 9, 4, 5, 6, 1, 2, 3]
     ''85CA7E3F1F4751EBCC12025083D428EC5ABD05055313B7FC143439D2F31CF712''"
  by (simp add: verifyHash_def Let_def hex_example EqualFold_def fold_char_def char_of_def bit_0)


lemma unix_paths:
  "unix_Join ''out'' ''abl'' = ''out/abl''" "unix_Dir ''out/abl'' = ''out''"
  "unix_Join ''out'' ''boot/abl.img'' = ''out/boot/abl.img''" "unix_Dir ''out/boot/abl.img'' = ''out/boot''"
  "unix_Join ''out'' ''../evil'' = ''evil''" "unix_Dir ''evil'' = ''.''"
  "unix_Join ''out'' ''/etc/evil'' = ''out/etc/evil''" "unix_Dir ''out/etc/evil'' = ''out/etc''"
  by (simp_all add: unix_Join_def unix_Dir_def unix_Clean_def clean_step_def)




lemma verify_example_lower:
  "verifyHash Sum256 [7, 8, 9, 4, 5, 6, 1, 2, 3]
     ''85ca7e3f1f4751ebcc12025083d428ec5abd05055313b7fc143439d2f31cf712''"
  by (simp add: verifyHash_def Let_def hex_example EqualFold_def)

lemma ExtractFiles_task_fields:
  "FileInfo (ExtractFiles_task file r6 km sp out) = file"
  "OutputDir (ExtractFiles_task file r6 km sp out) = out"
  "NumSegments (ExtractFiles_task file r6 km sp out) = calculateOptimalSegments (PartitionLength file)"
  "UseSegmented (ExtractFiles_task file r6 km sp out)
     = (calculateOptimalSegments (PartitionLength file) > 1)"
  by (simp_all add: ExtractFiles_task_def Let_def)

text \<open>
  Claim C8 (zero-length partition), amended.  Stage 2 has no check of \<open>PartitionLength\<close>:
  the field is only read by \<open>calculateOptimalSegments\<close>.  For an entry whose
  \<open>PartitionLength\<close> is 0 the task gets one segment and is not segmented, the worker runs
  the sequential path, and when the block loop yields data, the hash matches and the
  directory and the file can be written, the task succeeds and the file is written.
\<close>

theorem zero_partition_length_processed:
  assumes "PartitionLength entry = 0"
    and "task = ExtractFiles_task entry region6Data keyMapData keyMapSpare outputDir"
    and "outputPath = path_Join P outputDir (Name entry)"
    and "\<not> mkdir_fails P fs (path_Dir P outputPath)"
    and "processFileSequential_loop P task
           (go_int (go_int (int (FileInfo.Offset entry)) + go_int (int (Length entry))))
           (go_int (int (FileInfo.Offset entry))) 0 [] = Inr finalData"
    and "verifyHash (sha256_sum P) finalData (FileSha256Hash entry)"
    and "\<not> write_fails P (fs\<lparr>dirs := insert (path_Dir P outputPath) (dirs fs)\<rparr>) outputPath"
  shows "NumSegments task = 1 \<and> \<not> UseSegmented task
     \<and> worker P task fs =
         Some (Inr (\<lparr>FileName = Name entry, Success = True, Message = OK\<rparr>,
                    fs\<lparr>dirs := insert (path_Dir P outputPath) (dirs fs),
                        files := (files fs)(outputPath \<mapsto> finalData)\<rparr>))"
proof -
  have n: "NumSegments task = 1" and u: "\<not> UseSegmented task"
    using assms(1, 2) by (simp_all add: ExtractFiles_task_fields calculateOptimalSegments_def)
  have f: "FileInfo task = entry" and o: "OutputDir task = outputDir"
    using assms(2) by (simp_all add: ExtractFiles_task_fields)
  have m: "\<not> mkdir_fails P fs (path_Dir P (path_Join P (OutputDir task) (Name (FileInfo task))))"
    using assms(3, 4) by (simp add: f o)
  have l: "processFileSequential_loop P task
           (go_int (go_int (int (FileInfo.Offset (FileInfo task))) + go_int (int (Length (FileInfo task)))))
           (go_int (int (FileInfo.Offset (FileInfo task)))) 0 [] = Inr finalData"
    using assms(5) by (simp add: f)
  have "processFileSequential P task fs =
         Inr (\<lparr>FileName = Name entry, Success = True, Message = OK\<rparr>,
              fs\<lparr>dirs := insert (path_Dir P outputPath) (dirs fs),
                  files := (files fs)(outputPath \<mapsto> finalData)\<rparr>)"
    using processFileSequential_checked [OF m l] assms(6, 7)
    unfolding assms(3) by (simp add: f o Let_def)
  with n u show ?thesis by (simp add: worker_def)
qed

theorem zero_partition_length_processed_witness:
  "PartitionLength (example_file ''abl''
      ''85CA7E3F1F4751EBCC12025083D428EC5ABD05055313B7FC143439D2F31CF712'' 0 720) = 0
   \<and> verifyHash (sha256_sum example_platform) [7, 8, 9, 4, 5, 6, 1, 2, 3]
       (FileSha256Hash (example_file ''abl''
          ''85CA7E3F1F4751EBCC12025083D428EC5ABD05055313B7FC143439D2F31CF712'' 0 720))
   \<and> NumSegments (example_task (example_file ''abl''
          ''85CA7E3F1F4751EBCC12025083D428EC5ABD05055313B7FC143439D2F31CF712'' 0 720) three_blocks) = 1
   \<and> \<not> UseSegmented (example_task (example_file ''abl''
          ''85CA7E3F1F4751EBCC12025083D428EC5ABD05055313B7FC143439D2F31CF712'' 0 720) three_blocks)
   \<and> worker example_platform
       (example_task (example_file ''abl''
          ''85CA7E3F1F4751EBCC12025083D428EC5ABD05055313B7FC143439D2F31CF712'' 0 720) three_blocks)
       empty_fs
     = Some (Inr (\<lparr>FileName = ''abl'', Success = True, Message = OK\<rparr>,
                  \<lparr>dirs = {''out''}, files = [''out/abl'' \<mapsto> [7, 8, 9, 4, 5, 6, 1, 2, 3]]\<rparr>))"
proof -
  let ?h = "''85CA7E3F1F4751EBCC12025083D428EC5ABD05055313B7FC143439D2F31CF712''"
  let ?f = "example_file ''abl'' ?h 0 720"
  have l: "processFileSequential_loop example_platform (example_task ?f three_blocks)
           (go_int (go_int (int (FileInfo.Offset ?f)) + go_int (int (Length ?f))))
           (go_int (int (FileInfo.Offset ?f))) 0 [] = Inr [7, 8, 9, 4, 5, 6, 1, 2, 3]"
    using ex_seq3 [of "''abl''" ?h 0] by (simp add: ex_fields go_int_def)
  have v: "verifyHash (sha256_sum example_platform) [7, 8, 9, 4, 5, 6, 1, 2, 3] (FileSha256Hash ?f)"
    using verify_example by (simp add: ex_fields)
  from zero_partition_length_processed [where P = example_platform and fs = empty_fs
         and entry = ?f and task = "example_task ?f three_blocks" and region6Data = three_blocks
         and keyMapData = "replicate 64 0xAB" and keyMapSpare = "replicate 448 0"
         and outputDir = "''out''" and outputPath = "''out/abl''"
         and finalData = "[7, 8, 9, 4, 5, 6, 1, 2, 3]", OF _ _ _ _ l v]
  have "NumSegments (example_task ?f three_blocks) = 1 \<and> \<not> UseSegmented (example_task ?f three_blocks)
     \<and> worker example_platform (example_task ?f three_blocks) empty_fs
       = Some (Inr (\<lparr>FileName = ''abl'', Success = True, Message = OK\<rparr>,
                  \<lparr>dirs = {''out''}, files = [''out/abl'' \<mapsto> [7, 8, 9, 4, 5, 6, 1, 2, 3]]\<rparr>))"
    by (simp add: ex_fields unix_paths example_task_def empty_fs_def)
  with v show ?thesis by (simp add: ex_fields)
qed

theorem zero_partition_length_counterexample:
  "PartitionLength (example_file ''abl''
      ''85ca7e3f1f4751ebcc12025083d428ec5abd05055313b7fc143439d2f31cf712'' 0 720) = 0
   \<and> worker example_platform
       (ExtractFiles_task
          (example_file ''abl''
             ''85ca7e3f1f4751ebcc12025083d428ec5abd05055313b7fc143439d2f31cf712'' 0 720)
          three_blocks (replicate 64 0xAB) (replicate 448 0) ''out'')
       empty_fs
     = Some (Inr (\<lparr>FileName = ''abl'', Success = True, Message = OK\<rparr>,
                  \<lparr>dirs = {''out''}, files = [''out/abl'' \<mapsto> [7, 8, 9, 4, 5, 6, 1, 2, 3]]\<rparr>))"
proof -
  let ?h = "''85ca7e3f1f4751ebcc12025083d428ec5abd05055313b7fc143439d2f31cf712''"
  let ?t = "example_task (example_file ''abl'' ?h 0 720) three_blocks"
  have "processFileSequential example_platform ?t empty_fs
     = Inr (\<lparr>FileName = ''abl'', Success = True, Message = OK\<rparr>,
            \<lparr>dirs = {''out''}, files = [''out/abl'' \<mapsto> [7, 8, 9, 4, 5, 6, 1, 2, 3]]\<rparr>)"
    using verify_example_lower ex_seq3 [of "''abl''" ?h 0]
    by (simp add: processFileSequential_checked [where finalData = "[7, 8, 9, 4, 5, 6, 1, 2, 3]"]
          ex_fields unix_paths go_int_def Let_def empty_fs_def)
  then show ?thesis
    by (simp add: worker_def ex_fields calculateOptimalSegments_def example_task_def [symmetric])
qed

end
